theory Spec2Isabelle
  imports Main "HOL-Library.Char_ord" "HOL-Library.List_Lexorder"
begin

section \<open>Python values used by scrapper.py\<close>

text \<open>
  Exceptions are values. The handlers of the fetchers are \<^verbatim>\<open>except Exception\<close>, which
  catches the subclasses of \<^verbatim>\<open>Exception\<close> only; an exception that derives from
  \<^verbatim>\<open>BaseException\<close> directly (\<^verbatim>\<open>asyncio.CancelledError\<close>, \<^verbatim>\<open>GeneratorExit\<close>) passes
  through them. Both carry the text that \<^verbatim>\<open>str(e)\<close> returns.
\<close>

datatype py_exn = Exception string | BaseException string

text \<open>The slice \<^verbatim>\<open>xs[:n]\<close>: a negative \<open>n\<close> counts from the end.\<close>

definition slice_to :: "int \<Rightarrow> 'a list \<Rightarrow> 'a list" where
  "slice_to n xs = (if 0 \<le> n then take (nat n) xs else take (length xs - nat (- n)) xs)"

text \<open>
  What a fetcher does to the outside world, in the order it does it: the pauses of
  \<^verbatim>\<open>asyncio.sleep\<close>, the requests of \<^verbatim>\<open>session.get\<close> and the calls of
  \<^verbatim>\<open>feedparser.parse\<close>.
\<close>

datatype io_event = Sleep int | Get string | Parse string

subsection \<open>Strings\<close>

text \<open>
  \<^verbatim>\<open>str.lower\<close>, \<^verbatim>\<open>str.replace\<close> on one character and \<^verbatim>\<open>str.title\<close>, on ASCII text
  (the source identifiers of the program are ASCII). \<^verbatim>\<open>title\<close> puts a cased character in
  upper case when the one before it is not cased, in lower case when it is.
\<close>

definition is_upper :: "char \<Rightarrow> bool" where
  "is_upper c = (65 \<le> (of_char c :: nat) \<and> (of_char c :: nat) \<le> 90)"

definition is_lower :: "char \<Rightarrow> bool" where
  "is_lower c = (97 \<le> (of_char c :: nat) \<and> (of_char c :: nat) \<le> 122)"

definition lower_char :: "char \<Rightarrow> char" where
  "lower_char c = (if is_upper c then char_of ((of_char c :: nat) + 32) else c)"

definition upper_char :: "char \<Rightarrow> char" where
  "upper_char c = (if is_lower c then char_of ((of_char c :: nat) - 32) else c)"

definition lower :: "string \<Rightarrow> string" where
  "lower s = map lower_char s"

definition replace :: "char \<Rightarrow> char \<Rightarrow> string \<Rightarrow> string" where
  "replace old new s = map (\<lambda>c. if c = old then new else c) s"

fun title_from :: "bool \<Rightarrow> string \<Rightarrow> string" where
  "title_from previous_is_cased [] = []"
| "title_from previous_is_cased (c # cs) =
     (if is_lower c then
        (if previous_is_cased then c else upper_char c) # title_from True cs
      else if is_upper c then
        (if previous_is_cased then lower_char c else c) # title_from True cs
      else c # title_from False cs)"

definition title_case :: "string \<Rightarrow> string" where
  "title_case s = title_from False s"

subsection \<open>Clock readings\<close>

text \<open>
  \<^verbatim>\<open>datetime.now()\<close> and the two formats the program asks of \<^verbatim>\<open>strftime\<close>:
  \<^verbatim>\<open>%Y-%m-%d %H:%M\<close> and \<^verbatim>\<open>%Y%m%d_%H%M%S\<close>, every field zero-padded to its width.
\<close>

record datetime =
  year :: nat
  month :: nat
  day :: nat
  hour :: nat
  minute :: nat
  second :: nat

definition digit :: "nat \<Rightarrow> char" where
  "digit n = ''0123456789'' ! (n mod 10)"

definition pad2 :: "nat \<Rightarrow> string" where
  "pad2 n = [digit (n div 10), digit n]"

definition pad4 :: "nat \<Rightarrow> string" where
  "pad4 n = [digit (n div 1000), digit (n div 100), digit (n div 10), digit n]"

definition strftime_minute :: "datetime \<Rightarrow> string" where
  "strftime_minute t =
     pad4 (year t) @ ''-'' @ pad2 (month t) @ ''-'' @ pad2 (day t) @ '' '' @
     pad2 (hour t) @ '':'' @ pad2 (minute t)"

definition strftime_stamp :: "datetime \<Rightarrow> string" where
  "strftime_stamp t =
     pad4 (year t) @ pad2 (month t) @ pad2 (day t) @ ''_'' @
     pad2 (hour t) @ pad2 (minute t) @ pad2 (second t)"

text \<open>A fetcher reads the clock once for each entry it handles: reading \<open>i\<close> is for entry \<open>i\<close>.\<close>

type_synonym clock = "nat \<Rightarrow> datetime"

subsection \<open>Dictionaries\<close>

text \<open>
  A \<^verbatim>\<open>dict\<close> keeps its keys in the order they were first stored, and the program
  iterates over it: an association list. Storing under a key that is there replaces the
  value where it stands.
\<close>

fun dict_set :: "('k \<times> 'v) list \<Rightarrow> 'k \<Rightarrow> 'v \<Rightarrow> ('k \<times> 'v) list" where
  "dict_set [] k v = [(k, v)]"
| "dict_set ((k', v') # d) k v =
     (if k' = k then (k', v) # d else (k', v') # dict_set d k v)"

definition dict_values :: "('k \<times> 'v) list \<Rightarrow> 'v list" where
  "dict_values d = map snd d"

definition dict_keys :: "('k \<times> 'v) list \<Rightarrow> 'k list" where
  "dict_keys d = map fst d"

section \<open>ScrapingResult\<close>

text \<open>An article is the \<^verbatim>\<open>dict\<close> the fetchers build, from field name to text.\<close>

type_synonym article = "(string \<times> string) list"

record ScrapingResult =
  source :: string
  articles :: "article list"
  status :: string
  error :: "string option"

text \<open>
  The handler \<^verbatim>\<open>except Exception as e\<close> that closes every fetcher: an \<^verbatim>\<open>Exception\<close>
  becomes an error result with \<^verbatim>\<open>str(e)\<close>, anything else leaves the fetcher.
\<close>

definition except_Exception :: "string \<Rightarrow> py_exn \<Rightarrow> py_exn + ScrapingResult" where
  "except_Exception src e =
     (case e of
        Exception m \<Rightarrow> Inr \<lparr>source = src, articles = [], status = ''error'', error = Some m\<rparr>
      | BaseException m \<Rightarrow> Inl (BaseException m))"

section \<open>AsyncWebScraper.scrape_with_retry\<close>

record retry_config =
  max_retries :: int
  base_delay :: int
  max_delay :: int
  backoff_factor :: int

text \<open>\<^verbatim>\<open>self.retry_config\<close> as \<^verbatim>\<open>__init__\<close> builds it.\<close>

definition default_retry_config :: retry_config where
  "default_retry_config =
     \<lparr>max_retries = 3, base_delay = 1, max_delay = 10, backoff_factor = 2\<rparr>"

text \<open>
  A response has its status and what \<^verbatim>\<open>await response.text()\<close> gives: the body, or an
  exception while reading it. The network is a function from the attempt index to what
  \<^verbatim>\<open>session.get(url)\<close> does at that attempt.
\<close>

datatype response = Response int "py_exn + string"

type_synonym network = "nat \<Rightarrow> py_exn + response"

text \<open>The delay computed at line 59, for every attempt.\<close>

definition delay :: "retry_config \<Rightarrow> nat \<Rightarrow> int" where
  "delay cfg attempt = min (base_delay cfg * backoff_factor cfg ^ attempt) (max_delay cfg)"

text \<open>The events of one attempt before its response: the pause (not at attempt 0) and the request.\<close>

definition attempt_events :: "retry_config \<Rightarrow> string \<Rightarrow> nat \<Rightarrow> io_event list" where
  "attempt_events cfg url attempt =
     (if attempt > 0 then [Sleep (delay cfg attempt)] else []) @ [Get url]"

text \<open>
  The loop \<^verbatim>\<open>for attempt in range(max_retries)\<close>, from \<open>attempt\<close> on with \<open>k\<close> attempts
  left. An \<^verbatim>\<open>Exception\<close> is logged and the loop goes on; a response whose status is not
  200 falls out of the \<^verbatim>\<open>with\<close> block and the loop goes on; anything else leaves the
  function. The result is the body, \<open>None\<close> after the last attempt, or the exception that
  passed the handler.
\<close>

fun retry_from ::
  "retry_config \<Rightarrow> string \<Rightarrow> network \<Rightarrow> nat \<Rightarrow> nat \<Rightarrow> (py_exn + string option) \<times> io_event list"
where
  "retry_from cfg url net attempt 0 = (Inr None, [])"
| "retry_from cfg url net attempt (Suc k) =
     (let ev = attempt_events cfg url attempt;
          rest = retry_from cfg url net (Suc attempt) k
      in case net attempt of
           Inl (Exception m) \<Rightarrow> (fst rest, ev @ snd rest)
         | Inl (BaseException m) \<Rightarrow> (Inl (BaseException m), ev)
         | Inr (Response st body) \<Rightarrow>
             if st = 200 then
               (case body of
                  Inr txt \<Rightarrow> (Inr (Some txt), ev)
                | Inl (Exception m) \<Rightarrow> (fst rest, ev @ snd rest)
                | Inl (BaseException m) \<Rightarrow> (Inl (BaseException m), ev))
             else (fst rest, ev @ snd rest))"

definition scrape_with_retry ::
  "retry_config \<Rightarrow> string \<Rightarrow> network \<Rightarrow> (py_exn + string option) \<times> io_event list"
where
  "scrape_with_retry cfg url net = retry_from cfg url net 0 (nat (max_retries cfg))"

text \<open>The pauses of a run and the number of its requests.\<close>

fun sleeps :: "io_event list \<Rightarrow> int list" where
  "sleeps [] = []"
| "sleeps (Sleep d # es) = d # sleeps es"
| "sleeps (e # es) = sleeps es"

fun requests :: "io_event list \<Rightarrow> nat" where
  "requests [] = 0"
| "requests (Get u # es) = Suc (requests es)"
| "requests (e # es) = requests es"

text \<open>
  An attempt after which the loop goes on to the next one: an \<^verbatim>\<open>Exception\<close> from the
  request, a status other than 200, or an \<^verbatim>\<open>Exception\<close> while the body of a 200 response
  is read.
\<close>

fun failed_attempt :: "py_exn + response \<Rightarrow> bool" where
  "failed_attempt (Inl (Exception m)) = True"
| "failed_attempt (Inl (BaseException m)) = False"
| "failed_attempt (Inr (Response st body)) =
     (if st = 200 then (case body of Inl (Exception m) \<Rightarrow> True | _ \<Rightarrow> False) else True)"

section \<open>Feed fetchers\<close>

text \<open>
  An entry of a parsed feed has the optional fields the fetchers read with
  \<^verbatim>\<open>entry.get\<close> and \<^verbatim>\<open>hasattr\<close>. \<open>Defect\<close> is an entry on which building the article
  raises.
\<close>

record entry =
  title :: "string option"
  link :: "string option"
  summary :: "string option"
  published :: "string option"
  author :: "string option"

datatype feed_entry = Entry entry | Defect py_exn

text \<open>\<^verbatim>\<open>feedparser.parse(url)\<close>: the entries of the feed, or an exception.\<close>

type_synonym feedparser = "string \<Rightarrow> py_exn + feed_entry list"

text \<open>The \<^verbatim>\<open>dict\<close> literal that the three feed loops share; \<open>label\<close> is its \<^verbatim>\<open>'source'\<close>.\<close>

definition feed_article :: "string \<Rightarrow> datetime \<Rightarrow> entry \<Rightarrow> article" where
  "feed_article label now e =
     [(''title'', take 100 (case title e of None \<Rightarrow> ''N/A'' | Some t \<Rightarrow> t)),
      (''url'', case link e of None \<Rightarrow> ''N/A'' | Some u \<Rightarrow> u),
      (''summary'', take 250 (case summary e of None \<Rightarrow> [] | Some t \<Rightarrow> t)),
      (''published'', case published e of None \<Rightarrow> strftime_minute now | Some p \<Rightarrow> p),
      (''source'', label)]"

text \<open>\<^verbatim>\<open>fetch_rss_feed\<close> adds the author when the entry has one.\<close>

definition rss_article :: "string \<Rightarrow> datetime \<Rightarrow> entry \<Rightarrow> article" where
  "rss_article src now e =
     (let article = feed_article (title_case (replace CHR ''_'' CHR '' '' src)) now e
      in case author e of None \<Rightarrow> article | Some a \<Rightarrow> dict_set article ''author'' a)"

text \<open>
  The loop over \<^verbatim>\<open>feed.entries[:limit]\<close>, entry \<open>i\<close> first: an entry whose article
  raises an \<^verbatim>\<open>Exception\<close> is skipped (\<^verbatim>\<open>continue\<close>); any other exception leaves the loop.
\<close>

fun feed_loop ::
  "(datetime \<Rightarrow> entry \<Rightarrow> article) \<Rightarrow> clock \<Rightarrow> nat \<Rightarrow> feed_entry list \<Rightarrow> py_exn + article list"
where
  "feed_loop build clock i [] = Inr []"
| "feed_loop build clock i (Entry e # es) =
     (case feed_loop build clock (Suc i) es of
        Inl x \<Rightarrow> Inl x
      | Inr as \<Rightarrow> Inr (build (clock i) e # as))"
| "feed_loop build clock i (Defect (Exception m) # es) = feed_loop build clock (Suc i) es"
| "feed_loop build clock i (Defect (BaseException m) # es) = Inl (BaseException m)"

text \<open>
  The body shared by \<^verbatim>\<open>scrape_dark_reading\<close> and \<^verbatim>\<open>scrape_bleeping_computer\<close>, which
  differ in the identifier, the label and the address only.
\<close>

definition scrape_feed ::
  "string \<Rightarrow> string \<Rightarrow> string \<Rightarrow> feedparser \<Rightarrow> clock \<Rightarrow> int \<Rightarrow>
     (py_exn + ScrapingResult) \<times> io_event list"
where
  "scrape_feed src label feed_url parse clock limit =
     (case parse feed_url of
        Inl e \<Rightarrow> (except_Exception src e, [Parse feed_url])
      | Inr entries \<Rightarrow>
          (case feed_loop (feed_article label) clock 0 (slice_to limit entries) of
             Inl e \<Rightarrow> (except_Exception src e, [Parse feed_url])
           | Inr as \<Rightarrow>
               (Inr \<lparr>source = src, articles = as, status = ''success'', error = None\<rparr>,
                [Parse feed_url])))"

definition scrape_dark_reading ::
  "feedparser \<Rightarrow> clock \<Rightarrow> int \<Rightarrow> (py_exn + ScrapingResult) \<times> io_event list"
where
  "scrape_dark_reading =
     scrape_feed ''dark_reading'' ''Dark Reading'' ''https://www.darkreading.com/rss.xml''"

definition scrape_bleeping_computer ::
  "feedparser \<Rightarrow> clock \<Rightarrow> int \<Rightarrow> (py_exn + ScrapingResult) \<times> io_event list"
where
  "scrape_bleeping_computer =
     scrape_feed ''bleeping_computer'' ''Bleeping Computer''
       ''https://www.bleepingcomputer.com/feed/''"

subsection \<open>RSSFeedAggregator\<close>

text \<open>\<^verbatim>\<open>self.rss_feeds\<close> as \<^verbatim>\<open>__init__\<close> builds it.\<close>

definition rss_feeds :: "string \<rightharpoonup> string" where
  "rss_feeds = map_of
     [(''gb_hackers'', ''https://gbhackers.com/feed/''),
      (''the_hacker_news'', ''https://feeds.feedburner.com/TheHackersNews''),
      (''security_week'', ''https://www.securityweek.com/feed/''),
      (''dark_reading'', ''https://www.darkreading.com/rss.xml''),
      (''bleeping_computer'', ''https://www.bleepingcomputer.com/feed/''),
      (''krebs_security'', ''https://krebsonsecurity.com/feed/'')]"

text \<open>
  \<^verbatim>\<open>fetch_rss_feed\<close>, over the table of feeds of the object. \<^verbatim>\<open>if not feed_url\<close> holds
  for a missing key and for an empty address.
\<close>

definition fetch_rss_feed ::
  "(string \<rightharpoonup> string) \<Rightarrow> feedparser \<Rightarrow> clock \<Rightarrow> string \<Rightarrow> int \<Rightarrow>
     (py_exn + ScrapingResult) \<times> io_event list"
where
  "fetch_rss_feed feeds parse clock src limit =
     (case feeds src of
        None \<Rightarrow>
          (Inr \<lparr>source = src, articles = [], status = ''error'',
                error = Some ''No RSS feed configured''\<rparr>, [])
      | Some feed_url \<Rightarrow>
          if feed_url = [] then
            (Inr \<lparr>source = src, articles = [], status = ''error'',
                  error = Some ''No RSS feed configured''\<rparr>, [])
          else
            (case parse feed_url of
               Inl e \<Rightarrow> (except_Exception src e, [Parse feed_url])
             | Inr entries \<Rightarrow>
                 (case feed_loop (rss_article src) clock 0 (slice_to limit entries) of
                    Inl e \<Rightarrow> (except_Exception src e, [Parse feed_url])
                  | Inr as \<Rightarrow>
                      (Inr \<lparr>source = src, articles = as, status = ''success'', error = None\<rparr>,
                       [Parse feed_url]))))"

section \<open>AsyncWebScraper.scrape_krebs_security\<close>

text \<open>
  What the loop reads of an \<^verbatim>\<open>article\<close> element of the page. A title tag has its text
  (\<^verbatim>\<open>get_text(strip=True)\<close>) and its first \<^verbatim>\<open>a\<close> tag, if any, with what
  \<^verbatim>\<open>get('href')\<close> gives. An element has the result of
  \<^verbatim>\<open>find('h2', class_='entry-title')\<close>, of \<^verbatim>\<open>find(['h2', 'h3'])\<close>, and the texts of
  \<^verbatim>\<open>find('div', class_='entry-summary')\<close> and of \<^verbatim>\<open>find('p')\<close>. \<open>Broken\<close> is an
  element on which the body of the loop raises.
\<close>

datatype anchor = Anchor "string option"

record title_tag =
  get_text :: string
  find_a :: "anchor option"

datatype element =
  Element "title_tag option" "title_tag option" "string option" "string option"
| Broken

text \<open>\<^verbatim>\<open>BeautifulSoup(html, 'html.parser').find_all('article')\<close>, or an exception.\<close>

type_synonym soup = "string \<Rightarrow> py_exn + element list"

text \<open>
  The loop over \<^verbatim>\<open>story_elements\<close>, element \<open>i\<close> first. An element with no title tag,
  with no \<^verbatim>\<open>a\<close> tag in it or with no (or an empty) \<^verbatim>\<open>href\<close> is passed over; the bare
  \<^verbatim>\<open>except\<close> passes over a broken one.
\<close>

fun story_loop :: "clock \<Rightarrow> nat \<Rightarrow> element list \<Rightarrow> article list" where
  "story_loop clock i [] = []"
| "story_loop clock i (Broken # es) = story_loop clock (Suc i) es"
| "story_loop clock i (Element entry_title h2_h3 entry_summary p # es) =
     (case (case entry_title of None \<Rightarrow> h2_h3 | Some t \<Rightarrow> Some t) of
        None \<Rightarrow> story_loop clock (Suc i) es
      | Some title_elem \<Rightarrow>
          (case find_a title_elem of
             None \<Rightarrow> story_loop clock (Suc i) es
           | Some (Anchor None) \<Rightarrow> story_loop clock (Suc i) es
           | Some (Anchor (Some url)) \<Rightarrow>
               if url = [] then story_loop clock (Suc i) es
               else
                 (let summary_text =
                        (case (case entry_summary of None \<Rightarrow> p | Some t \<Rightarrow> Some t) of
                           None \<Rightarrow> []
                         | Some t \<Rightarrow> t)
                  in [(''title'', get_text title_elem),
                      (''url'', url),
                      (''summary'', take 300 summary_text),
                      (''scraped_at'', strftime_minute (clock i)),
                      (''source'', ''Krebs on Security'')]
                     # story_loop clock (Suc i) es)))"

definition scrape_krebs_security ::
  "retry_config \<Rightarrow> network \<Rightarrow> soup \<Rightarrow> clock \<Rightarrow> int \<Rightarrow> (py_exn + ScrapingResult) \<times> io_event list"
where
  "scrape_krebs_security cfg net find_all clock limit =
     (case scrape_with_retry cfg ''https://krebsonsecurity.com'' net of
        (Inl e, io) \<Rightarrow> (except_Exception ''krebs_security'' e, io)
      | (Inr None, io) \<Rightarrow>
          (Inr \<lparr>source = ''krebs_security'', articles = [], status = ''error'',
                error = Some ''Failed to fetch''\<rparr>, io)
      | (Inr (Some html), io) \<Rightarrow>
          if html = [] then
            (Inr \<lparr>source = ''krebs_security'', articles = [], status = ''error'',
                  error = Some ''Failed to fetch''\<rparr>, io)
          else
            (case find_all html of
               Inl e \<Rightarrow> (except_Exception ''krebs_security'' e, io)
             | Inr story_elements \<Rightarrow>
                 (Inr \<lparr>source = ''krebs_security'',
                       articles = story_loop clock 0 (slice_to limit story_elements),
                       status = ''success'', error = None\<rparr>, io)))"

section \<open>CybersecurityAggregator.scrape_all_async\<close>

text \<open>
  The world one run meets: what \<^verbatim>\<open>feedparser.parse\<close> gives for an address, what
  \<^verbatim>\<open>session.get\<close> gives at each attempt, what the page parser gives, the clock of each
  fetcher, and \<^verbatim>\<open>asyncio.to_thread\<close> around \<^verbatim>\<open>fetch_rss_feed\<close> for a source: \<open>Some e\<close>
  when the call cannot be handed to a worker thread and awaiting it raises \<open>e\<close>, \<open>None\<close>
  when the function runs.
\<close>

record world =
  feedparser_parse :: feedparser
  session_get :: network
  find_all_article :: soup
  datetime_now :: "string \<Rightarrow> clock"
  to_thread :: "string \<Rightarrow> py_exn option"

text \<open>The outcome of each task of the batch: the result it returns, or the exception it raises.\<close>

definition async_tasks :: "world \<Rightarrow> int \<Rightarrow> (py_exn + ScrapingResult) list" where
  "async_tasks w limit =
     [fst (scrape_dark_reading (feedparser_parse w) (datetime_now w ''dark_reading'') limit),
      fst (scrape_bleeping_computer (feedparser_parse w)
             (datetime_now w ''bleeping_computer'') limit),
      fst (scrape_krebs_security default_retry_config (session_get w) (find_all_article w)
             (datetime_now w ''krebs_security'') limit)]"

definition rss_task :: "world \<Rightarrow> string \<Rightarrow> int \<Rightarrow> py_exn + ScrapingResult" where
  "rss_task w src limit =
     (case to_thread w src of
        Some e \<Rightarrow> Inl e
      | None \<Rightarrow> fst (fetch_rss_feed rss_feeds (feedparser_parse w) (datetime_now w src) src limit))"

definition rss_tasks :: "world \<Rightarrow> int \<Rightarrow> (py_exn + ScrapingResult) list" where
  "rss_tasks w limit =
     [rss_task w ''gb_hackers'' limit,
      rss_task w ''the_hacker_news'' limit,
      rss_task w ''security_week'' limit]"

definition all_tasks :: "world \<Rightarrow> int \<Rightarrow> (py_exn + ScrapingResult) list" where
  "all_tasks w limit = async_tasks w limit @ rss_tasks w limit"

text \<open>
  \<^verbatim>\<open>asyncio.gather(*all_tasks, return_exceptions=True)\<close>. \<open>completion\<close> lists the
  positions of the tasks in the order in which they finish. A task that finishes stores its
  outcome, result or exception, in the slot of its position; the call resolves once every
  slot is filled, to the slots in the order of the tasks. \<open>None\<close>: a task never finishes
  and the call never resolves.
\<close>

definition gather :: "nat list \<Rightarrow> 'a list \<Rightarrow> 'a list option" where
  "gather completion tasks =
     those (fold (\<lambda>i slots. if i < length slots then slots[i := Some (tasks ! i)] else slots)
              completion (replicate (length tasks) None))"

text \<open>
  The loop over \<^verbatim>\<open>results_list\<close> (lines 255 to 261). The callback acts on a state of the
  caller; \<open>None\<close> is no callback.
\<close>

fun results_loop ::
  "(string \<Rightarrow> ScrapingResult \<Rightarrow> 's \<Rightarrow> 's) option \<Rightarrow> (py_exn + ScrapingResult) list \<Rightarrow>
     (string \<times> ScrapingResult) list \<times> 's \<Rightarrow> (string \<times> ScrapingResult) list \<times> 's"
where
  "results_loop callback [] acc = acc"
| "results_loop callback (Inl e # rest) (results, s) = results_loop callback rest (results, s)"
| "results_loop callback (Inr result # rest) (results, s) =
     (let source_key = replace CHR '' '' CHR ''_'' (lower (source result))
      in results_loop callback rest
           (dict_set results source_key result,
            case callback of None \<Rightarrow> s | Some f \<Rightarrow> f source_key result s))"

definition scrape_all_async ::
  "world \<Rightarrow> nat list \<Rightarrow> int \<Rightarrow> (string \<Rightarrow> ScrapingResult \<Rightarrow> 's \<Rightarrow> 's) option \<Rightarrow> 's \<Rightarrow>
     ((string \<times> ScrapingResult) list \<times> 's) option"
where
  "scrape_all_async w completion limit callback s =
     (case gather completion (all_tasks w limit) of
        None \<Rightarrow> None
      | Some results_list \<Rightarrow> Some (results_loop callback results_list ([], s)))"


text \<open>The results among the outcomes of the tasks, in the order of the tasks.\<close>

fun returned :: "(py_exn + ScrapingResult) list \<Rightarrow> ScrapingResult list" where
  "returned [] = []"
| "returned (Inl e # rest) = returned rest"
| "returned (Inr result # rest) = result # returned rest"

section \<open>Collecting the articles\<close>

text \<open>
  The loop of \<^verbatim>\<open>run_scraping\<close> (lines 733 to 737) over \<^verbatim>\<open>self.results.values()\<close>, on
  \<^verbatim>\<open>self.all_articles\<close> and \<^verbatim>\<open>total_count\<close>.
\<close>

fun collect_loop :: "ScrapingResult list \<Rightarrow> article list \<times> nat \<Rightarrow> article list \<times> nat" where
  "collect_loop [] acc = acc"
| "collect_loop (result # rest) (all_articles, total_count) =
     (if status result = ''success'' then
        collect_loop rest
          (all_articles @ articles result, total_count + length (articles result))
      else collect_loop rest (all_articles, total_count))"

definition collect_all_articles ::
  "(string \<times> ScrapingResult) list \<Rightarrow> article list \<times> nat"
where
  "collect_all_articles results = collect_loop (dict_values results) ([], 0)"

section \<open>CybersecurityAggregator.save_results\<close>

text \<open>The loop of lines 269 to 272.\<close>

fun extend_loop :: "ScrapingResult list \<Rightarrow> article list \<Rightarrow> article list" where
  "extend_loop [] all_articles = all_articles"
| "extend_loop (result # rest) all_articles =
     (if status result = ''success'' then extend_loop rest (all_articles @ articles result)
      else extend_loop rest all_articles)"

text \<open>
  A file that was written, with what it holds: the table with its column names and rows,
  or the document with its \<^verbatim>\<open>scraped_at\<close>, its \<^verbatim>\<open>total_articles\<close> and its articles.
  And the records of the logger.
\<close>

datatype written =
  Csv string "string list" "article list"
| Json string datetime nat "article list"

datatype log_record = Warning string | Saved_csv nat string | Saved_json string

record saved =
  csv_file :: "string option"
  json_file :: "string option"
  files :: "written list"
  logged :: "log_record list"

text \<open>
  \<^verbatim>\<open>save_results\<close>, where the files can be opened. \<open>now\<close> is the clock at line 267 and
  \<open>now'\<close> the clock at line 301.
\<close>

definition save_results ::
  "(string \<times> ScrapingResult) list \<Rightarrow> string \<Rightarrow> datetime \<Rightarrow> datetime \<Rightarrow> saved"
where
  "save_results results format_type now now' =
     (let timestamp = strftime_stamp now;
          all_articles = extend_loop (dict_values results) []
      in if all_articles = [] then
           \<lparr>csv_file = None, json_file = None, files = [],
            logged = [Warning ''No articles to save'']\<rparr>
         else
           (let csv_filename = ''cybersecurity_news_'' @ timestamp @ ''.csv'';
                json_filename = ''cybersecurity_news_'' @ timestamp @ ''.json'';
                fieldnames = sort (remdups (concat (map dict_keys all_articles)));
                csv = (format_type = ''csv'' \<or> format_type = ''both'');
                json = (format_type = ''json'' \<or> format_type = ''both'')
            in \<lparr>csv_file = (if csv then Some csv_filename else None),
                json_file = (if json then Some json_filename else None),
                files =
                  (if csv then [Csv csv_filename fieldnames all_articles] else []) @
                  (if json then [Json json_filename now' (length all_articles) all_articles]
                   else []),
                logged =
                  (if csv then [Saved_csv (length all_articles) csv_filename] else []) @
                  (if json then [Saved_json json_filename] else [])\<rparr>))"

section \<open>What the loops keep\<close>

text \<open>
  The link that the loop over the page takes from an element: the \<^verbatim>\<open>href\<close> of the
  \<^verbatim>\<open>a\<close> tag of its title tag, when there is one and it is not empty.
\<close>

fun link_of :: "element \<Rightarrow> string option" where
  "link_of Broken = None"
| "link_of (Element entry_title h2_h3 entry_summary p) =
     (case (case entry_title of None \<Rightarrow> h2_h3 | Some t \<Rightarrow> Some t) of
        None \<Rightarrow> None
      | Some title_elem \<Rightarrow>
          (case find_a title_elem of
             None \<Rightarrow> None
           | Some (Anchor None) \<Rightarrow> None
           | Some (Anchor (Some url)) \<Rightarrow> if url = [] then None else Some url))"

section \<open>Worlds in which every fetcher returns\<close>

text \<open>
  What is raised is caught by the handlers \<^verbatim>\<open>except Exception\<close> when it is an
  \<^verbatim>\<open>Exception\<close>. A world is ordinary when \<^verbatim>\<open>asyncio.to_thread\<close> hands every call to a
  worker thread and the feed parser, the entries, the network and the page parser raise
  nothing but \<^verbatim>\<open>Exception\<close>s.
\<close>

fun caught :: "py_exn + 'a \<Rightarrow> bool" where
  "caught (Inl (Exception m)) = True"
| "caught (Inl (BaseException m)) = False"
| "caught (Inr x) = True"

fun entry_caught :: "feed_entry \<Rightarrow> bool" where
  "entry_caught (Defect (BaseException m)) = False"
| "entry_caught (Defect (Exception m)) = True"
| "entry_caught (Entry e) = True"

definition feed_caught :: "py_exn + feed_entry list \<Rightarrow> bool" where
  "feed_caught f = (case f of Inl e \<Rightarrow> caught f | Inr entries \<Rightarrow> list_all entry_caught entries)"

definition response_caught :: "py_exn + response \<Rightarrow> bool" where
  "response_caught r = (case r of Inl e \<Rightarrow> caught r | Inr (Response st body) \<Rightarrow> caught body)"

definition ordinary :: "world \<Rightarrow> bool" where
  "ordinary w =
     ((\<forall>src. to_thread w src = None) \<and>
      (\<forall>url. feed_caught (feedparser_parse w url)) \<and>
      (\<forall>attempt. response_caught (session_get w attempt)) \<and>
      (\<forall>html. caught (find_all_article w html)))"

text \<open>The key under which a result is stored (line 258).\<close>

definition source_key :: "ScrapingResult \<Rightarrow> string" where
  "source_key result = replace CHR '' '' CHR ''_'' (lower (source result))"

text \<open>The identifiers of the six sources of a batch, in the order of \<^verbatim>\<open>all_tasks\<close>.\<close>

definition source_ids :: "string list" where
  "source_ids =
     [''dark_reading'', ''bleeping_computer'', ''krebs_security'',
      ''gb_hackers'', ''the_hacker_news'', ''security_week'']"

section \<open>Two worlds\<close>

text \<open>
  A world in which every feed has one entry and the site of the scraped page times out at
  every attempt, and the same world with no thread left for the call of
  \<^verbatim>\<open>fetch_rss_feed\<close> on \<^verbatim>\<open>gb_hackers\<close>: the \<^verbatim>\<open>RuntimeError\<close> of
  \<^verbatim>\<open>asyncio.to_thread\<close>, an \<^verbatim>\<open>Exception\<close>, is raised by the task itself.
\<close>

definition site_down :: world where
  "site_down =
     \<lparr>feedparser_parse =
        (\<lambda>url. Inr [Entry \<lparr>title = Some ''News'', link = Some url, summary = None,
                             published = None, author = None\<rparr>]),
      session_get = (\<lambda>attempt. Inl (Exception ''timeout'')),
      find_all_article = (\<lambda>html. Inr []),
      datetime_now =
        (\<lambda>src i. \<lparr>year = 2024, month = 10, day = 20, hour = 3, minute = 4, second = 5\<rparr>),
      to_thread = (\<lambda>src. None)\<rparr>"

definition no_thread_left :: world where
  "no_thread_left =
     site_down\<lparr>to_thread :=
       (\<lambda>src. if src = ''gb_hackers'' then Some (Exception ''cannot start new thread'')
              else None)\<rparr>"

section \<open>The retry loop\<close>

lemma requests_append: "requests (xs @ ys) = requests xs + requests ys"
  by (induction xs rule: requests.induct) auto

lemma sleeps_append: "sleeps (xs @ ys) = sleeps xs @ sleeps ys"
  by (induction xs rule: sleeps.induct) auto

lemma requests_attempt_events: "requests (attempt_events cfg url a) = 1"
  by (simp add: attempt_events_def)

lemma retry_from_trace:
  "snd (retry_from cfg url net a k) =
     concat (map (attempt_events cfg url) [a..<a + requests (snd (retry_from cfg url net a k))])"
proof (induction k arbitrary: a)
  case 0
  then show ?case by simp
next
  case (Suc k)
  let ?rest = "retry_from cfg url net (Suc a) k"
  have go: "concat (map (attempt_events cfg url) [a..<a + requests (attempt_events cfg url a @ snd ?rest)])
      = attempt_events cfg url a @ snd ?rest"
  proof -
    have "[a..<a + requests (attempt_events cfg url a @ snd ?rest)]
        = a # [Suc a..<Suc a + requests (snd ?rest)]"
      by (simp add: requests_append requests_attempt_events upt_conv_Cons)
    then show ?thesis using Suc.IH [of "Suc a", symmetric] by simp
  qed
  have stop: "concat (map (attempt_events cfg url) [a..<a + requests (attempt_events cfg url a)])
      = attempt_events cfg url a"
    by (simp add: requests_attempt_events)
  show ?case
    by (simp add: Let_def go stop split: sum.split py_exn.split response.split)
qed

lemma retry_from_requests: "requests (snd (retry_from cfg url net a k)) \<le> k"
proof (induction k arbitrary: a)
  case 0
  then show ?case by simp
next
  case (Suc k)
  have "requests (snd (retry_from cfg url net (Suc a) k)) \<le> k" by (rule Suc.IH)
  then show ?case
    by (simp add: Let_def requests_append requests_attempt_events split: sum.split py_exn.split response.split)
qed

lemma sleeps_trace:
  "sleeps (concat (map (attempt_events cfg url) [a..<a + n])) = map (delay cfg) [max 1 a..<a + n]"
proof (induction n arbitrary: a)
  case 0
  then show ?case by simp
next
  case (Suc n)
  have "[a..<a + Suc n] = a # [Suc a..<Suc a + n]" by (simp add: upt_conv_Cons)
  then show ?case using Suc.IH [of "Suc a"]
    by (cases "a = 0") (simp_all add: sleeps_append attempt_events_def upt_conv_Cons del: upt_Suc)
qed

lemma attempt_events_formula:
  "attempt_events cfg url =
     (\<lambda>a. (if a = 0 then []
           else [Sleep (min (base_delay cfg * backoff_factor cfg ^ a) (max_delay cfg))]) @ [Get url])"
  by (rule ext) (simp add: attempt_events_def delay_def)

lemma delay_formula:
  "delay cfg = (\<lambda>a. min (base_delay cfg * backoff_factor cfg ^ a) (max_delay cfg))"
  by (rule ext) (simp add: delay_def)

lemma all_attempts_fail:
  "scrape_with_retry default_retry_config url (\<lambda>a. Inl (Exception m)) =
     (Inr None, [Get url, Sleep 2, Get url, Sleep 4, Get url])"
  by (simp add: scrape_with_retry_def default_retry_config_def numeral_3_eq_3
        attempt_events_def delay_def)

text \<open>
  C2. Whatever the configuration and the network, the run of the retry loop is, attempt by
  attempt from attempt 0, the pause of that attempt followed by its request: no pause
  before attempt 0, and before an attempt \<open>a \<ge> 1\<close> one pause of
  \<open>min (base_delay * backoff_factor ^ a) max_delay\<close>. With the configuration of the program
  (3, 1, 10, 2) and every attempt failing, the pauses are 2 before attempt 1 and 4 before
  attempt 2, none before attempt 0: 6 in all before the loop gives up.
\<close>

theorem retry_delay_policy:
  "snd (scrape_with_retry cfg url net) =
     concat (map (\<lambda>a. (if a = 0 then []
                        else [Sleep (min (base_delay cfg * backoff_factor cfg ^ a) (max_delay cfg))])
                       @ [Get url])
               [0..<requests (snd (scrape_with_retry cfg url net))])
   \<and> sleeps (snd (scrape_with_retry cfg url net)) =
       map (\<lambda>a. min (base_delay cfg * backoff_factor cfg ^ a) (max_delay cfg))
         [1..<requests (snd (scrape_with_retry cfg url net))]
   \<and> scrape_with_retry default_retry_config url (\<lambda>a. Inl (Exception m)) =
       (Inr None, [Get url, Sleep 2, Get url, Sleep 4, Get url])
   \<and> sum_list (sleeps [Get url, Sleep 2, Get url, Sleep 4, Get url]) = 6"
proof -
  let ?t = "snd (scrape_with_retry cfg url net)"
  have shape: "?t = concat (map (attempt_events cfg url) [0..<0 + requests ?t])"
    unfolding scrape_with_retry_def by (rule retry_from_trace)
  have "sleeps ?t = sleeps (concat (map (attempt_events cfg url) [0..<0 + requests ?t]))"
    using shape by simp
  also have "\<dots> = map (delay cfg) [max 1 0..<0 + requests ?t]"
    by (rule sleeps_trace)
  finally have pauses: "sleeps ?t = map (delay cfg) [1..<requests ?t]" by simp
  show ?thesis
    using shape pauses all_attempts_fail [of url m]
    by (simp add: attempt_events_formula delay_formula)
qed

lemma failed_attempt_step:
  "failed_attempt (net a) \<Longrightarrow>
     retry_from cfg url net a (Suc k) =
       (fst (retry_from cfg url net (Suc a) k),
        attempt_events cfg url a @ snd (retry_from cfg url net (Suc a) k))"
proof -
  assume f: "failed_attempt (net a)"
  show ?thesis
  proof (cases "net a")
    case (Inl e)
    with f show ?thesis by (cases e) (simp_all add: Let_def)
  next
    case (Inr r)
    obtain st body where r: "r = Response st body" by (cases r)
    show ?thesis
    proof (cases "st = 200")
      case True
      with f Inr r obtain m where "body = Inl (Exception m)"
        by (auto split: sum.splits py_exn.splits)
      with Inr r True show ?thesis by (simp add: Let_def)
    next
      case False
      with Inr r show ?thesis by (simp add: Let_def)
    qed
  qed
qed

lemma accepted_attempt_step:
  "net a = Inr (Response 200 (Inr body)) \<Longrightarrow>
     retry_from cfg url net a (Suc k) = (Inr (Some body), attempt_events cfg url a)"
  by (simp add: Let_def)

lemma retry_from_first_200:
  "i < k \<Longrightarrow> \<forall>j<i. failed_attempt (net (a + j)) \<Longrightarrow>
   net (a + i) = Inr (Response 200 (Inr body)) \<Longrightarrow>
     fst (retry_from cfg url net a k) = Inr (Some body) \<and>
     requests (snd (retry_from cfg url net a k)) = Suc i"
proof (induction i arbitrary: a k)
  case 0
  then obtain k' where k: "k = Suc k'" by (cases k) auto
  from 0 have "net a = Inr (Response 200 (Inr body))" by simp
  then show ?case unfolding k
    by (simp add: accepted_attempt_step requests_attempt_events)
next
  case (Suc i)
  then obtain k' where k: "k = Suc k'" and i: "i < k'" by (cases k) auto
  from Suc.prems(2) have here: "failed_attempt (net a)" by force
  have later: "\<forall>j<i. failed_attempt (net (Suc a + j))"
  proof (intro allI impI)
    fix j assume "j < i"
    then have "Suc j < Suc i" by simp
    with Suc.prems(2) have "failed_attempt (net (a + Suc j))" by blast
    then show "failed_attempt (net (Suc a + j))" by simp
  qed
  from Suc.prems(3) have hit: "net (Suc a + i) = Inr (Response 200 (Inr body))" by simp
  from Suc.IH [OF i later hit] show ?case unfolding k
    by (simp add: failed_attempt_step [of net a, OF here] requests_append
          requests_attempt_events del: retry_from.simps)
qed

lemma retry_from_all_failed:
  "\<forall>j<k. failed_attempt (net (a + j)) \<Longrightarrow>
     fst (retry_from cfg url net a k) = Inr None \<and>
     requests (snd (retry_from cfg url net a k)) = k"
proof (induction k arbitrary: a)
  case 0
  then show ?case by simp
next
  case (Suc k)
  from Suc.prems have here: "failed_attempt (net a)" by force
  have later: "\<forall>j<k. failed_attempt (net (Suc a + j))"
  proof (intro allI impI)
    fix j assume "j < k"
    then have "Suc j < Suc k" by simp
    with Suc.prems have "failed_attempt (net (a + Suc j))" by blast
    then show "failed_attempt (net (Suc a + j))" by simp
  qed
  from Suc.IH [OF later] show ?case
    by (simp add: failed_attempt_step [of net a, OF here] requests_append
          requests_attempt_events del: retry_from.simps)
qed

lemma krebs_failed_to_fetch:
  "fst (scrape_with_retry cfg ''https://krebsonsecurity.com'' net) = Inr None \<or>
   fst (scrape_with_retry cfg ''https://krebsonsecurity.com'' net) = Inr (Some []) \<Longrightarrow>
     fst (scrape_krebs_security cfg net find_all clock limit) =
       Inr \<lparr>source = ''krebs_security'', articles = [], status = ''error'',
            error = Some ''Failed to fetch''\<rparr>"
  by (cases "scrape_with_retry cfg ''https://krebsonsecurity.com'' net")
     (auto simp: scrape_krebs_security_def)

text \<open>
  C3, amended. The retry loop makes at most \<open>max_retries\<close> requests. It returns the body
  of the first attempt whose status is exactly 200 and whose body can be read, when every
  attempt before it failed; a failed attempt is an \<^verbatim>\<open>Exception\<close>, a status other than
  200 (201 and 204 too), or an \<^verbatim>\<open>Exception\<close> while the body is read. When every attempt
  fails, the loop returns \<open>None\<close> after \<open>max_retries\<close> requests and
  \<^verbatim>\<open>scrape_krebs_security\<close> returns the result with status \<^verbatim>\<open>error\<close>, no article,
  and the cause \<^verbatim>\<open>Failed to fetch\<close>.
\<close>

theorem retry_loop_outcome:
  "requests (snd (scrape_with_retry cfg url net)) \<le> nat (max_retries cfg)
   \<and> (i < nat (max_retries cfg) \<and> (\<forall>j<i. failed_attempt (net j)) \<and>
        net i = Inr (Response 200 (Inr body)) \<longrightarrow>
          fst (scrape_with_retry cfg url net) = Inr (Some body) \<and>
          requests (snd (scrape_with_retry cfg url net)) = Suc i)
   \<and> ((\<forall>j<nat (max_retries cfg). failed_attempt (net j)) \<longrightarrow>
          fst (scrape_with_retry cfg url net) = Inr None \<and>
          requests (snd (scrape_with_retry cfg url net)) = nat (max_retries cfg) \<and>
          fst (scrape_krebs_security cfg net find_all clock limit) =
            Inr \<lparr>source = ''krebs_security'', articles = [], status = ''error'',
                 error = Some ''Failed to fetch''\<rparr>)"
proof (intro conjI impI)
  show "requests (snd (scrape_with_retry cfg url net)) \<le> nat (max_retries cfg)"
    unfolding scrape_with_retry_def by (rule retry_from_requests)
next
  assume h: "i < nat (max_retries cfg) \<and> (\<forall>j<i. failed_attempt (net j)) \<and>
    net i = Inr (Response 200 (Inr body))"
  then have "fst (retry_from cfg url net 0 (nat (max_retries cfg))) = Inr (Some body) \<and>
     requests (snd (retry_from cfg url net 0 (nat (max_retries cfg)))) = Suc i"
    by (intro retry_from_first_200) simp_all
  then show "fst (scrape_with_retry cfg url net) = Inr (Some body)"
    and "requests (snd (scrape_with_retry cfg url net)) = Suc i"
    by (simp_all add: scrape_with_retry_def)
next
  assume h: "\<forall>j<nat (max_retries cfg). failed_attempt (net j)"
  then have all: "\<And>u. fst (retry_from cfg u net 0 (nat (max_retries cfg))) = Inr None \<and>
     requests (snd (retry_from cfg u net 0 (nat (max_retries cfg)))) = nat (max_retries cfg)"
    by (intro retry_from_all_failed) simp
  from all [of url] show "fst (scrape_with_retry cfg url net) = Inr None"
    and "requests (snd (scrape_with_retry cfg url net)) = nat (max_retries cfg)"
    by (simp_all add: scrape_with_retry_def)
  from all [of "''https://krebsonsecurity.com''"]
  show "fst (scrape_krebs_security cfg net find_all clock limit) =
            Inr \<lparr>source = ''krebs_security'', articles = [], status = ''error'',
                 error = Some ''Failed to fetch''\<rparr>"
    by (intro krebs_failed_to_fetch) (simp add: scrape_with_retry_def)
qed

text \<open>
  The theorem at work: a 503 and then a 200 give the body at the second request;
  three timeouts give the error result.
\<close>

theorem retry_loop_outcome_witness:
  "fst (scrape_with_retry default_retry_config ''https://krebsonsecurity.com''
          (\<lambda>a. if a = 1 then Inr (Response 200 (Inr ''<html>'')) else Inr (Response 503 (Inr []))))
     = Inr (Some ''<html>'')
   \<and> requests (snd (scrape_with_retry default_retry_config ''https://krebsonsecurity.com''
          (\<lambda>a. if a = 1 then Inr (Response 200 (Inr ''<html>'')) else Inr (Response 503 (Inr [])))))
     = 2
   \<and> fst (scrape_krebs_security default_retry_config (\<lambda>a. Inl (Exception ''timeout''))
          (\<lambda>html. Inr []) (\<lambda>i. \<lparr>year = 2024, month = 1, day = 2, hour = 3, minute = 4, second = 5\<rparr>) 10)
     = Inr \<lparr>source = ''krebs_security'', articles = [], status = ''error'',
            error = Some ''Failed to fetch''\<rparr>"
  using retry_loop_outcome [of default_retry_config "''https://krebsonsecurity.com''"
      "\<lambda>a. if a = 1 then Inr (Response 200 (Inr ''<html>'')) else Inr (Response 503 (Inr []))"
      1 "''<html>''"]
    retry_loop_outcome [of default_retry_config "''https://krebsonsecurity.com''"
      "\<lambda>a. Inl (Exception ''timeout'')" 0 "[]" "\<lambda>html. Inr []"
      "\<lambda>i. \<lparr>year = 2024, month = 1, day = 2, hour = 3, minute = 4, second = 5\<rparr>" 10]
  by (simp add: default_retry_config_def)

text \<open>
  C3 as the specification words it fails: 201 is a 2xx status, and a server that answers
  201 with a body at every attempt is asked three times and the fetch ends in the cause
  \<^verbatim>\<open>Failed to fetch\<close>, which is not the text \<^verbatim>\<open>fetch failed\<close>.
\<close>

theorem retry_loop_refuses_201:
  "(200::int) \<le> 201 \<and> (201::int) < 300
   \<and> scrape_with_retry default_retry_config ''https://krebsonsecurity.com''
        (\<lambda>a. Inr (Response 201 (Inr ''<html>'')))
      = (Inr None,
         [Get ''https://krebsonsecurity.com'', Sleep 2, Get ''https://krebsonsecurity.com'',
          Sleep 4, Get ''https://krebsonsecurity.com''])
   \<and> fst (scrape_krebs_security default_retry_config
          (\<lambda>a. Inr (Response 201 (Inr ''<html>''))) (\<lambda>html. Inr [])
          (\<lambda>i. \<lparr>year = 2024, month = 1, day = 2, hour = 3, minute = 4, second = 5\<rparr>) 10)
      = Inr \<lparr>source = ''krebs_security'', articles = [], status = ''error'',
             error = Some ''Failed to fetch''\<rparr>
   \<and> ''Failed to fetch'' \<noteq> ''fetch failed''"
  by (simp add: scrape_krebs_security_def scrape_with_retry_def default_retry_config_def
        numeral_3_eq_3 attempt_events_def delay_def)

section \<open>The fetchers\<close>

lemma except_Exception_shape:
  "except_Exception src e = Inr r \<Longrightarrow>
     source r = src \<and> status r = ''error'' \<and> articles r = [] \<and> error r \<noteq> None"
  by (cases e) (auto simp: except_Exception_def)

lemma scrape_feed_shape:
  "fst (scrape_feed src label url parse clock limit) = Inr r \<Longrightarrow>
     source r = src \<and>
     (status r = ''error'' \<and> articles r = [] \<and> error r \<noteq> None \<or>
      status r = ''success'' \<and> error r = None)"
  by (auto simp: scrape_feed_def split: sum.splits dest: except_Exception_shape)

lemma fetch_rss_feed_shape:
  "fst (fetch_rss_feed feeds parse clock src limit) = Inr r \<Longrightarrow>
     source r = src \<and>
     (status r = ''error'' \<and> articles r = [] \<and> error r \<noteq> None \<or>
      status r = ''success'' \<and> error r = None)"
  by (auto simp: fetch_rss_feed_def split: sum.splits option.splits if_splits
        dest: except_Exception_shape)

lemma scrape_krebs_security_shape:
  "fst (scrape_krebs_security cfg net find_all clock limit) = Inr r \<Longrightarrow>
     source r = ''krebs_security'' \<and>
     (status r = ''error'' \<and> articles r = [] \<and> error r \<noteq> None \<or>
      status r = ''success'' \<and> error r = None)"
  by (auto simp: scrape_krebs_security_def split: sum.splits option.splits if_splits prod.splits
        dest: except_Exception_shape)

lemma digit_char: "digit n \<in> set ''0123456789''"
  unfolding digit_def by (rule nth_mem) simp

lemma strftime_minute_format:
  "\<exists>y1 y2 y3 y4 m1 m2 d1 d2 h1 h2 n1 n2.
     strftime_minute t = [y1, y2, y3, y4, CHR ''-'', m1, m2, CHR ''-'', d1, d2, CHR '' '', h1, h2, CHR '':'', n1, n2]
     \<and> set [y1, y2, y3, y4, m1, m2, d1, d2, h1, h2, n1, n2] \<subseteq> set ''0123456789''"
  unfolding strftime_minute_def pad2_def pad4_def
  using digit_char by (intro exI conjI) (simp, simp)


lemma krebs_articles:
  "fst (scrape_krebs_security cfg net find_all clock limit) = Inr r \<Longrightarrow>
     articles r = [] \<or>
     (\<exists>html es. find_all html = Inr es \<and> articles r = story_loop clock 0 (slice_to limit es))"
  by (auto simp: scrape_krebs_security_def except_Exception_def
        split: sum.splits option.splits if_splits prod.splits py_exn.splits) blast

lemma story_loop_Cons:
  "\<exists>pre. story_loop clock i (e # es) = pre @ story_loop clock (Suc i) es \<and>
     (case link_of e of
        None \<Rightarrow> pre = []
      | Some url \<Rightarrow>
          (\<exists>t s. pre = [[(''title'', t), (''url'', url), (''summary'', s),
                          (''scraped_at'', strftime_minute (clock i)),
                          (''source'', ''Krebs on Security'')]]))"
proof (cases e)
  case Broken
  then show ?thesis by simp
next
  case (Element entry_title h2_h3 entry_summary p)
  show ?thesis
  proof (cases "case entry_title of None \<Rightarrow> h2_h3 | Some t \<Rightarrow> Some t")
    case None
    with Element show ?thesis by simp
  next
    case (Some title_elem)
    show ?thesis
    proof (cases "find_a title_elem")
      case None
      with Element Some show ?thesis by simp
    next
      case (Some anchor)
      obtain href where anchor: "anchor = Anchor href" by (cases anchor)
      show ?thesis
      proof (cases href)
        case None
        with Element \<open>(case entry_title of None \<Rightarrow> h2_h3 | Some t \<Rightarrow> Some t) = Some title_elem\<close>
          Some anchor show ?thesis by simp
      next
        case (Some url)
        with Element \<open>(case entry_title of None \<Rightarrow> h2_h3 | Some t \<Rightarrow> Some t) = Some title_elem\<close>
          \<open>find_a title_elem = Some anchor\<close> anchor show ?thesis
          by (cases "url = []") (simp_all add: Let_def)
      qed
    qed
  qed
qed


lemma story_loop_member:
  "a \<in> set (story_loop clock i es) \<Longrightarrow>
     \<exists>j t u s. a = [(''title'', t), (''url'', u), (''summary'', s),
                    (''scraped_at'', strftime_minute (clock j)),
                    (''source'', ''Krebs on Security'')]"
proof (induction es arbitrary: i)
  case Nil
  then show ?case by simp
next
  case (Cons e es)
  obtain pre where step: "story_loop clock i (e # es) = pre @ story_loop clock (Suc i) es"
    and pre: "case link_of e of
        None \<Rightarrow> pre = []
      | Some url \<Rightarrow>
          (\<exists>t s. pre = [[(''title'', t), (''url'', url), (''summary'', s),
                          (''scraped_at'', strftime_minute (clock i)),
                          (''source'', ''Krebs on Security'')]])"
    using story_loop_Cons [of clock i e es] by blast
  from Cons.prems step have "a \<in> set pre \<or> a \<in> set (story_loop clock (Suc i) es)" by simp
  then show ?case
  proof
    assume "a \<in> set pre"
    with pre show ?thesis by (cases "link_of e") auto
  next
    assume "a \<in> set (story_loop clock (Suc i) es)"
    then show ?thesis by (rule Cons.IH)
  qed
qed

lemma story_loop_fields:
  "a \<in> set (story_loop clock i es) \<Longrightarrow>
     map_of a ''published'' = None \<and>
     (\<exists>j. map_of a ''scraped_at'' = Some (strftime_minute (clock j)))"
proof -
  assume "a \<in> set (story_loop clock i es)"
  then obtain j t u s where a: "a = [(''title'', t), (''url'', u), (''summary'', s),
                    (''scraped_at'', strftime_minute (clock j)),
                    (''source'', ''Krebs on Security'')]"
    using story_loop_member by blast
  have "map_of a ''published'' = None" unfolding a by simp
  moreover have "map_of a ''scraped_at'' = Some (strftime_minute (clock j))" unfolding a by simp
  ultimately show ?thesis by blast
qed

lemma feed_loop_articles:
  "feed_loop build clock i es = Inr as \<Longrightarrow> a \<in> set as \<Longrightarrow>
     \<exists>j e. Entry e \<in> set es \<and> a = build (clock j) e"
proof (induction build clock i es arbitrary: as rule: feed_loop.induct)
  case (1 build clock i)
  then show ?case by simp
next
  case (2 build clock i e es)
  then show ?case by (fastforce split: sum.splits)
next
  case (3 build clock i m es)
  then show ?case by fastforce
next
  case (4 build clock i m es)
  then show ?case by simp
qed

lemma feed_article_published:
  "map_of (feed_article label now e) ''published'' =
     Some (case published e of None \<Rightarrow> strftime_minute now | Some p \<Rightarrow> p)"
  by (simp add: feed_article_def)

lemma map_of_dict_set: "map_of (dict_set d k v) k' = (if k' = k then Some v else map_of d k')"
  by (induction d k v rule: dict_set.induct) auto

lemma rss_article_published:
  "map_of (rss_article src now e) ''published'' =
     Some (case published e of None \<Rightarrow> strftime_minute now | Some p \<Rightarrow> p)"
  by (simp add: rss_article_def Let_def map_of_dict_set feed_article_published split: option.split)

lemma set_slice_to: "set (slice_to n xs) \<subseteq> set xs"
  by (simp add: slice_to_def set_take_subset)

lemma fetch_rss_feed_articles:
  "fst (fetch_rss_feed feeds parse clock src limit) = Inr r \<Longrightarrow> a \<in> set (articles r) \<Longrightarrow>
     \<exists>j e url es. parse url = Inr es \<and> Entry e \<in> set es \<and> a = rss_article src (clock j) e"
proof -
  assume r: "fst (fetch_rss_feed feeds parse clock src limit) = Inr r" and a: "a \<in> set (articles r)"
  from r a obtain url es where p: "parse url = Inr es"
    and l: "feed_loop (rss_article src) clock 0 (slice_to limit es) = Inr (articles r)"
    by (auto simp: fetch_rss_feed_def except_Exception_def
          split: sum.splits option.splits if_splits py_exn.splits)
  from feed_loop_articles [OF l a] obtain j e
    where "Entry e \<in> set (slice_to limit es)" and "a = rss_article src (clock j) e" by blast
  with p set_slice_to [of limit es] show ?thesis by blast
qed

lemma scrape_feed_articles:
  "fst (scrape_feed src label feed_url parse clock limit) = Inr r \<Longrightarrow> a \<in> set (articles r) \<Longrightarrow>
     \<exists>j e es. parse feed_url = Inr es \<and> Entry e \<in> set es \<and> a = feed_article label (clock j) e"
proof -
  assume r: "fst (scrape_feed src label feed_url parse clock limit) = Inr r"
    and a: "a \<in> set (articles r)"
  from r a obtain es where p: "parse feed_url = Inr es"
    and l: "feed_loop (feed_article label) clock 0 (slice_to limit es) = Inr (articles r)"
    by (auto simp: scrape_feed_def except_Exception_def split: sum.splits py_exn.splits)
  from feed_loop_articles [OF l a] obtain j e
    where "Entry e \<in> set (slice_to limit es)" and "a = feed_article label (clock j) e" by blast
  with p set_slice_to [of limit es] show ?thesis by blast
qed

text \<open>
  C10. A source with no entry in the table of feeds gets, from \<^verbatim>\<open>fetch_rss_feed\<close>, the result
  with status \<^verbatim>\<open>error\<close>, the message \<^verbatim>\<open>No RSS feed configured\<close> and no article:
  a result and not an exception, and \<^verbatim>\<open>feedparser.parse\<close> is never called.
\<close>

theorem fetch_rss_feed_not_configured:
  "feeds src = None \<Longrightarrow>
     fetch_rss_feed feeds parse clock src limit =
       (Inr \<lparr>source = src, articles = [], status = ''error'',
             error = Some ''No RSS feed configured''\<rparr>, [])"
  by (simp add: fetch_rss_feed_def)

text \<open>
  The table of the program has no feed for \<^verbatim>\<open>nowhere\<close>.
\<close>

theorem fetch_rss_feed_not_configured_witness:
  "rss_feeds ''nowhere'' = None \<and>
   fetch_rss_feed rss_feeds (\<lambda>url. Inl (Exception ''unreachable''))
       (\<lambda>i. \<lparr>year = 2024, month = 1, day = 2, hour = 3, minute = 4, second = 5\<rparr>) ''nowhere'' 20 =
     (Inr \<lparr>source = ''nowhere'', articles = [], status = ''error'',
           error = Some ''No RSS feed configured''\<rparr>, [])"
proof -
  have none: "rss_feeds ''nowhere'' = None" by (simp add: rss_feeds_def)
  from none fetch_rss_feed_not_configured [of rss_feeds "''nowhere''", OF none]
  show ?thesis by simp
qed

text \<open>
  C5. A result returned by any of the four fetchers has status \<^verbatim>\<open>success\<close> or
  \<^verbatim>\<open>error\<close>; with \<^verbatim>\<open>success\<close> it has no error text; it has articles only with
  \<^verbatim>\<open>success\<close>; with \<^verbatim>\<open>error\<close> it has no article and an error text.
\<close>

theorem fetch_result_invariant:
  "fst (fetch_rss_feed feeds parse clock src limit) = Inr r \<or>
   fst (scrape_dark_reading parse clock limit) = Inr r \<or>
   fst (scrape_bleeping_computer parse clock limit) = Inr r \<or>
   fst (scrape_krebs_security cfg net find_all clock limit) = Inr r \<Longrightarrow>
     (status r = ''success'' \<longrightarrow> error r = None) \<and>
     (articles r \<noteq> [] \<longrightarrow> status r = ''success'') \<and>
     (status r = ''error'' \<longrightarrow> articles r = [] \<and> error r \<noteq> None) \<and>
     (status r = ''success'' \<or> status r = ''error'')"
proof -
  assume "fst (fetch_rss_feed feeds parse clock src limit) = Inr r \<or>
   fst (scrape_dark_reading parse clock limit) = Inr r \<or>
   fst (scrape_bleeping_computer parse clock limit) = Inr r \<or>
   fst (scrape_krebs_security cfg net find_all clock limit) = Inr r"
  then have "status r = ''error'' \<and> articles r = [] \<and> error r \<noteq> None \<or>
      status r = ''success'' \<and> error r = None"
    unfolding scrape_dark_reading_def scrape_bleeping_computer_def
    using fetch_rss_feed_shape scrape_feed_shape scrape_krebs_security_shape by blast
  then show ?thesis by auto
qed

text \<open>
  An empty feed gives a successful result with no article, which is not the error result
  of an unreachable feed.
\<close>

theorem fetch_result_invariant_witness:
  "fst (fetch_rss_feed rss_feeds (\<lambda>url. Inr []) (\<lambda>i. \<lparr>year = 2024, month = 1, day = 2, hour = 3, minute = 4, second = 5\<rparr>)
          ''gb_hackers'' 20) =
     Inr \<lparr>source = ''gb_hackers'', articles = [], status = ''success'', error = None\<rparr>
   \<and> error \<lparr>source = ''gb_hackers'', articles = [], status = ''success'', error = None\<rparr> = None
   \<and> fst (fetch_rss_feed rss_feeds (\<lambda>url. Inl (Exception ''unreachable'')) (\<lambda>i. \<lparr>year = 2024, month = 1, day = 2, hour = 3, minute = 4, second = 5\<rparr>)
          ''gb_hackers'' 20) =
     Inr \<lparr>source = ''gb_hackers'', articles = [], status = ''error'', error = Some ''unreachable''\<rparr>
   \<and> articles \<lparr>source = ''gb_hackers'', articles = [], status = ''error'', error = Some ''unreachable''\<rparr> = []"
  using fetch_result_invariant [of rss_feeds "\<lambda>url. Inr []"
      "\<lambda>i. \<lparr>year = 2024, month = 1, day = 2, hour = 3, minute = 4, second = 5\<rparr>" "''gb_hackers''" 20
      "\<lparr>source = ''gb_hackers'', articles = [], status = ''success'', error = None\<rparr>"]
    fetch_result_invariant [of rss_feeds "\<lambda>url. Inl (Exception ''unreachable'')"
      "\<lambda>i. \<lparr>year = 2024, month = 1, day = 2, hour = 3, minute = 4, second = 5\<rparr>" "''gb_hackers''" 20
      "\<lparr>source = ''gb_hackers'', articles = [], status = ''error'', error = Some ''unreachable''\<rparr>"]
  by (simp add: fetch_rss_feed_def rss_feeds_def slice_to_def except_Exception_def)


lemma krebs_page:
  "fst (scrape_krebs_security default_retry_config
          (\<lambda>a. Inr (Response 200 (Inr ''<html>'')))
          (\<lambda>html. Inr
             [Element None (Some \<lparr>get_text = ''First'', find_a = Some (Anchor (Some ''https://k/1''))\<rparr>)
                None (Some ''text''),
              Element (Some \<lparr>get_text = ''No link'', find_a = None\<rparr>) None None None,
              Broken,
              Element (Some \<lparr>get_text = ''Empty link'', find_a = Some (Anchor (Some []))\<rparr>)
                None None None])
          (\<lambda>i. \<lparr>year = 2024, month = 1, day = 2, hour = 3, minute = 4, second = 5\<rparr>) 10) =
     Inr \<lparr>source = ''krebs_security'',
          articles = [[(''title'', ''First''), (''url'', ''https://k/1''), (''summary'', ''text''),
                       (''scraped_at'', ''2024-01-02 03:04''),
                       (''source'', ''Krebs on Security'')]],
          status = ''success'', error = None\<rparr>"
  by code_simp


text \<open>
  C8, amended. Every article of a result of the feed fetchers (\<^verbatim>\<open>fetch_rss_feed\<close>,
  \<^verbatim>\<open>scrape_dark_reading\<close>, \<^verbatim>\<open>scrape_bleeping_computer\<close>) comes from an entry of the feed
  and has a \<^verbatim>\<open>published\<close> field: that of the entry when it has one, and otherwise a
  reading of the clock formatted as four digits, a dash, two digits, a dash, two digits, a
  space, two digits, a colon and two digits. An article of a result of
  \<^verbatim>\<open>scrape_krebs_security\<close> has no \<^verbatim>\<open>published\<close> field; it has a \<^verbatim>\<open>scraped_at\<close>
  field with a reading of the clock in that format.
\<close>

theorem published_or_scraped_at:
  "(fst (fetch_rss_feed feeds parse clock src limit) = Inr r \<and> a \<in> set (articles r) \<longrightarrow>
      (\<exists>j e url es. parse url = Inr es \<and> Entry e \<in> set es \<and>
         map_of a ''published'' =
           Some (case published e of None \<Rightarrow> strftime_minute (clock j) | Some p \<Rightarrow> p)))
   \<and> ((fst (scrape_dark_reading parse clock limit) = Inr r \<or>
        fst (scrape_bleeping_computer parse clock limit) = Inr r) \<and> a \<in> set (articles r) \<longrightarrow>
      (\<exists>j e url es. parse url = Inr es \<and> Entry e \<in> set es \<and>
         map_of a ''published'' =
           Some (case published e of None \<Rightarrow> strftime_minute (clock j) | Some p \<Rightarrow> p)))
   \<and> (\<exists>y1 y2 y3 y4 m1 m2 d1 d2 h1 h2 n1 n2.
        strftime_minute t =
          [y1, y2, y3, y4, CHR ''-'', m1, m2, CHR ''-'', d1, d2, CHR '' '', h1, h2, CHR '':'', n1, n2]
        \<and> set [y1, y2, y3, y4, m1, m2, d1, d2, h1, h2, n1, n2] \<subseteq> set ''0123456789'')
   \<and> (fst (scrape_krebs_security cfg net find_all clock limit) = Inr r \<and> a \<in> set (articles r) \<longrightarrow>
        map_of a ''published'' = None \<and>
        (\<exists>j. map_of a ''scraped_at'' = Some (strftime_minute (clock j))))"
proof (intro conjI impI)
  assume h: "fst (fetch_rss_feed feeds parse clock src limit) = Inr r \<and> a \<in> set (articles r)"
  then obtain j e url es where "parse url = Inr es" "Entry e \<in> set es"
    "a = rss_article src (clock j) e"
    using fetch_rss_feed_articles by blast
  then show "\<exists>j e url es. parse url = Inr es \<and> Entry e \<in> set es \<and>
         map_of a ''published'' =
           Some (case published e of None \<Rightarrow> strftime_minute (clock j) | Some p \<Rightarrow> p)"
    using rss_article_published by blast
next
  assume h: "(fst (scrape_dark_reading parse clock limit) = Inr r \<or>
        fst (scrape_bleeping_computer parse clock limit) = Inr r) \<and> a \<in> set (articles r)"
  then obtain src label url where "fst (scrape_feed src label url parse clock limit) = Inr r"
    unfolding scrape_dark_reading_def scrape_bleeping_computer_def by blast
  with h obtain j e es where "parse url = Inr es" "Entry e \<in> set es"
    "a = feed_article label (clock j) e"
    using scrape_feed_articles by blast
  then show "\<exists>j e url es. parse url = Inr es \<and> Entry e \<in> set es \<and>
         map_of a ''published'' =
           Some (case published e of None \<Rightarrow> strftime_minute (clock j) | Some p \<Rightarrow> p)"
    using feed_article_published by blast
next
  show "\<exists>y1 y2 y3 y4 m1 m2 d1 d2 h1 h2 n1 n2.
        strftime_minute t =
          [y1, y2, y3, y4, CHR ''-'', m1, m2, CHR ''-'', d1, d2, CHR '' '', h1, h2, CHR '':'', n1, n2]
        \<and> set [y1, y2, y3, y4, m1, m2, d1, d2, h1, h2, n1, n2] \<subseteq> set ''0123456789''"
    by (rule strftime_minute_format)
next
  assume h: "fst (scrape_krebs_security cfg net find_all clock limit) = Inr r \<and> a \<in> set (articles r)"
  then have "articles r \<noteq> []" by auto
  with h obtain html es where "articles r = story_loop clock 0 (slice_to limit es)"
    using krebs_articles [of cfg net find_all clock limit r] by blast
  with h have "a \<in> set (story_loop clock 0 (slice_to limit es))" by simp
  then have "\<exists>i es. a \<in> set (story_loop clock i es)" by blast
  then show "map_of a ''published'' = None"
    and "\<exists>j. map_of a ''scraped_at'' = Some (strftime_minute (clock j))"
    using story_loop_fields by blast+
qed

lemma rss_page:
  "fetch_rss_feed rss_feeds
     (\<lambda>url. Inr [Entry \<lparr>title = Some ''Old news'', link = Some ''https://g/1'', summary = None,
                          published = Some ''Mon, 01 Jan 2024'', author = None\<rparr>,
                   Defect (Exception ''bad entry''),
                   Entry \<lparr>title = None, link = None, summary = Some ''s'',
                          published = None, author = Some ''A. N.''\<rparr>])
     (\<lambda>i. \<lparr>year = 2024, month = 1, day = 2, hour = 3, minute = 4, second = 5\<rparr>)
     ''gb_hackers'' 20 =
   (Inr \<lparr>source = ''gb_hackers'',
         articles =
           [[(''title'', ''Old news''), (''url'', ''https://g/1''), (''summary'', []),
             (''published'', ''Mon, 01 Jan 2024''), (''source'', ''Gb Hackers'')],
            [(''title'', ''N/A''), (''url'', ''N/A''), (''summary'', ''s''),
             (''published'', ''2024-01-02 03:04''), (''source'', ''Gb Hackers''),
             (''author'', ''A. N.'')]],
         status = ''success'', error = None\<rparr>,
    [Parse ''https://gbhackers.com/feed/''])"
  by code_simp

text \<open>
  A feed of two good entries around a bad one: the entry without a date gets the clock.
\<close>

theorem published_or_scraped_at_witness:
  "fst (fetch_rss_feed rss_feeds
     (\<lambda>url. Inr [Entry \<lparr>title = Some ''Old news'', link = Some ''https://g/1'', summary = None,
                          published = Some ''Mon, 01 Jan 2024'', author = None\<rparr>,
                   Defect (Exception ''bad entry''),
                   Entry \<lparr>title = None, link = None, summary = Some ''s'',
                          published = None, author = Some ''A. N.''\<rparr>])
     (\<lambda>i. \<lparr>year = 2024, month = 1, day = 2, hour = 3, minute = 4, second = 5\<rparr>)
     ''gb_hackers'' 20) =
   Inr \<lparr>source = ''gb_hackers'',
         articles =
           [[(''title'', ''Old news''), (''url'', ''https://g/1''), (''summary'', []),
             (''published'', ''Mon, 01 Jan 2024''), (''source'', ''Gb Hackers'')],
            [(''title'', ''N/A''), (''url'', ''N/A''), (''summary'', ''s''),
             (''published'', ''2024-01-02 03:04''), (''source'', ''Gb Hackers''),
             (''author'', ''A. N.'')]],
         status = ''success'', error = None\<rparr>
   \<and> (\<exists>e::entry. map_of [(''title'', ''N/A''), (''url'', ''N/A''), (''summary'', ''s''),
             (''published'', ''2024-01-02 03:04''), (''source'', ''Gb Hackers''),
             (''author'', ''A. N.'')] ''published'' =
           Some (case published e of
                   None \<Rightarrow> strftime_minute
                     \<lparr>year = 2024, month = 1, day = 2, hour = 3, minute = 4, second = 5\<rparr>
                 | Some p \<Rightarrow> p))"
proof -
  let ?parse = "\<lambda>url::string. Inr [Entry \<lparr>title = Some ''Old news'', link = Some ''https://g/1'', summary = None,
                          published = Some ''Mon, 01 Jan 2024'', author = None\<rparr>,
                   Defect (Exception ''bad entry''),
                   Entry \<lparr>title = None, link = None, summary = Some ''s'',
                          published = None, author = Some ''A. N.''\<rparr>] :: py_exn + feed_entry list"
  let ?clock = "\<lambda>i::nat. \<lparr>year = 2024, month = 1, day = 2, hour = 3, minute = 4, second = 5\<rparr>"
  let ?a = "[(''title'', ''N/A''), (''url'', ''N/A''), (''summary'', ''s''),
             (''published'', ''2024-01-02 03:04''), (''source'', ''Gb Hackers''),
             (''author'', ''A. N.'')]"
  let ?r = "\<lparr>source = ''gb_hackers'',
         articles =
           [[(''title'', ''Old news''), (''url'', ''https://g/1''), (''summary'', []),
             (''published'', ''Mon, 01 Jan 2024''), (''source'', ''Gb Hackers'')], ?a],
         status = ''success'', error = None\<rparr>"
  have r: "fst (fetch_rss_feed rss_feeds ?parse ?clock ''gb_hackers'' 20) = Inr ?r"
    using rss_page by simp
  have a: "?a \<in> set (articles ?r)" by simp
  from published_or_scraped_at [where feeds = rss_feeds and parse = ?parse and clock = ?clock
      and src = "''gb_hackers''" and limit = 20 and r = ?r and a = ?a] r a
  have "\<exists>j e url es. ?parse url = Inr es \<and> Entry e \<in> set es \<and>
         map_of ?a ''published'' =
           Some (case published e of None \<Rightarrow> strftime_minute (?clock j) | Some p \<Rightarrow> p)"
    by blast
  then obtain j and e :: entry where "map_of ?a ''published'' =
           Some (case published e of None \<Rightarrow> strftime_minute (?clock j) | Some p \<Rightarrow> p)"
    by blast
  then have "\<exists>e::entry. map_of ?a ''published'' =
           Some (case published e of
                   None \<Rightarrow> strftime_minute
                     \<lparr>year = 2024, month = 1, day = 2, hour = 3, minute = 4, second = 5\<rparr>
                 | Some p \<Rightarrow> p)"
    by (intro exI [of _ e]) simp
  with r show ?thesis by (intro conjI)
qed

text \<open>
  C8 as the specification words it fails: the article scraped from the page has no
  \<^verbatim>\<open>published\<close> field.
\<close>

theorem scraped_article_without_published:
  "fst (scrape_krebs_security default_retry_config
          (\<lambda>a. Inr (Response 200 (Inr ''<html>'')))
          (\<lambda>html. Inr
             [Element None (Some \<lparr>get_text = ''First'', find_a = Some (Anchor (Some ''https://k/1''))\<rparr>)
                None (Some ''text''),
              Element (Some \<lparr>get_text = ''No link'', find_a = None\<rparr>) None None None,
              Broken,
              Element (Some \<lparr>get_text = ''Empty link'', find_a = Some (Anchor (Some []))\<rparr>)
                None None None])
          (\<lambda>i. \<lparr>year = 2024, month = 1, day = 2, hour = 3, minute = 4, second = 5\<rparr>) 10) =
     Inr \<lparr>source = ''krebs_security'',
          articles = [[(''title'', ''First''), (''url'', ''https://k/1''), (''summary'', ''text''),
                       (''scraped_at'', ''2024-01-02 03:04''),
                       (''source'', ''Krebs on Security'')]],
          status = ''success'', error = None\<rparr>
   \<and> map_of [(''title'', ''First''), (''url'', ''https://k/1''), (''summary'', ''text''),
              (''scraped_at'', ''2024-01-02 03:04''),
              (''source'', ''Krebs on Security'')] ''published'' = None"
  using krebs_page by simp

section \<open>Collecting and saving\<close>

lemma collect_loop_eq:
  "collect_loop rs (all_articles, total_count) =
     (all_articles @ concat (map articles (filter (\<lambda>r. status r = ''success'') rs)),
      total_count + length (concat (map articles (filter (\<lambda>r. status r = ''success'') rs))))"
  by (induction rs arbitrary: all_articles total_count) simp_all

lemma extend_loop_eq:
  "extend_loop rs all_articles =
     all_articles @ concat (map articles (filter (\<lambda>r. status r = ''success'') rs))"
  by (induction rs arbitrary: all_articles) simp_all

text \<open>
  C6. Both collecting loops (\<^verbatim>\<open>run_scraping\<close> and \<^verbatim>\<open>save_results\<close>) give the
  articles of the results with status \<^verbatim>\<open>success\<close>, concatenated in the order of the
  dictionary; the count is the length of that list; taking the \<^verbatim>\<open>error\<close> results out
  of the dictionary first changes neither, and the dictionary itself is only read. Two
  successful sources of five articles each give the five of the first followed by the five
  of the second, and the count 10.
\<close>

theorem collect_all_articles_concat:
  "collect_all_articles results =
     (concat (map articles (filter (\<lambda>r. status r = ''success'') (dict_values results))),
      length (concat (map articles (filter (\<lambda>r. status r = ''success'') (dict_values results)))))
   \<and> extend_loop (dict_values results) [] =
       concat (map articles (filter (\<lambda>r. status r = ''success'') (dict_values results)))
   \<and> filter (\<lambda>r. status r = ''success'') (dict_values results) =
       filter (\<lambda>r. status r = ''success'')
         (filter (\<lambda>r. status r \<noteq> ''error'') (dict_values results))
   \<and> (status ra = ''success'' \<and> status rb = ''success'' \<and>
        length (articles ra) = 5 \<and> length (articles rb) = 5 \<longrightarrow>
        collect_all_articles [(ka, ra), (kb, rb)] = (articles ra @ articles rb, 10))"
proof -
  have "filter (\<lambda>r. status r = ''success'') rs =
       filter (\<lambda>r. status r = ''success'') (filter (\<lambda>r. status r \<noteq> ''error'') rs)" for rs :: "ScrapingResult list"
    by (induction rs) auto
  then show ?thesis
    by (simp add: collect_all_articles_def collect_loop_eq extend_loop_eq dict_values_def)
qed

text \<open>
  Two sources of five articles.
\<close>

theorem collect_all_articles_concat_witness:
  "collect_all_articles
     [(''gb_hackers'', \<lparr>source = ''gb_hackers'',
          articles = [[(''title'', ''1'')], [(''title'', ''2'')], [(''title'', ''3'')],
                      [(''title'', ''4'')], [(''title'', ''5'')]],
          status = ''success'', error = None\<rparr>),
      (''security_week'', \<lparr>source = ''security_week'',
          articles = [[(''title'', ''6'')], [(''title'', ''7'')], [(''title'', ''8'')],
                      [(''title'', ''9'')], [(''title'', ''10'')]],
          status = ''success'', error = None\<rparr>)] =
   ([[(''title'', ''1'')], [(''title'', ''2'')], [(''title'', ''3'')], [(''title'', ''4'')],
     [(''title'', ''5'')], [(''title'', ''6'')], [(''title'', ''7'')], [(''title'', ''8'')],
     [(''title'', ''9'')], [(''title'', ''10'')]], 10)"
  using collect_all_articles_concat [where results = "[]" and ka = "''gb_hackers''" and kb = "''security_week''"
      and ra = "\<lparr>source = ''gb_hackers'',
          articles = [[(''title'', ''1'')], [(''title'', ''2'')], [(''title'', ''3'')],
                      [(''title'', ''4'')], [(''title'', ''5'')]],
          status = ''success'', error = None\<rparr>"
      and rb = "\<lparr>source = ''security_week'',
          articles = [[(''title'', ''6'')], [(''title'', ''7'')], [(''title'', ''8'')],
                      [(''title'', ''9'')], [(''title'', ''10'')]],
          status = ''success'', error = None\<rparr>"]
  by simp

text \<open>
  C9. When the collected list of articles is empty, as when every result has status
  \<^verbatim>\<open>error\<close>, \<^verbatim>\<open>save_results\<close> writes no file, logs the warning
  \<^verbatim>\<open>No articles to save\<close> and returns no file name. When it is not empty and the format
  is \<^verbatim>\<open>csv\<close>, \<^verbatim>\<open>json\<close> or \<^verbatim>\<open>both\<close>, it writes a file and returns its name.
\<close>

theorem save_results_declines_empty:
  "(extend_loop (dict_values results) [] = [] \<longrightarrow>
      save_results results format_type now now' =
        \<lparr>csv_file = None, json_file = None, files = [],
         logged = [Warning ''No articles to save'']\<rparr>)
   \<and> ((\<forall>r \<in> set (dict_values results). status r = ''error'') \<longrightarrow>
        extend_loop (dict_values results) [] = [])
   \<and> (extend_loop (dict_values results) [] \<noteq> [] \<and>
        (format_type = ''csv'' \<or> format_type = ''json'' \<or> format_type = ''both'') \<longrightarrow>
        files (save_results results format_type now now') \<noteq> [] \<and>
        (csv_file (save_results results format_type now now') \<noteq> None \<or>
         json_file (save_results results format_type now now') \<noteq> None))"
proof (intro conjI impI)
  assume "extend_loop (dict_values results) [] = []"
  then show "save_results results format_type now now' =
        \<lparr>csv_file = None, json_file = None, files = [],
         logged = [Warning ''No articles to save'']\<rparr>"
    by (simp add: save_results_def)
next
  assume "\<forall>r \<in> set (dict_values results). status r = ''error''"
  then have "filter (\<lambda>r. status r = ''success'') (dict_values results) = []"
    by (auto simp: filter_empty_conv)
  then show "extend_loop (dict_values results) [] = []"
    by (simp add: extend_loop_eq)
next
  assume h: "extend_loop (dict_values results) [] \<noteq> [] \<and>
        (format_type = ''csv'' \<or> format_type = ''json'' \<or> format_type = ''both'')"
  then show "files (save_results results format_type now now') \<noteq> []"
    and "csv_file (save_results results format_type now now') \<noteq> None \<or>
         json_file (save_results results format_type now now') \<noteq> None"
    by (auto simp: save_results_def Let_def)
qed

text \<open>
  A run of two failed sources, and a run with one article saved as JSON.
\<close>

theorem save_results_declines_empty_witness:
  "save_results
     [(''krebs_security'', \<lparr>source = ''krebs_security'', articles = [], status = ''error'',
                            error = Some ''Failed to fetch''\<rparr>),
      (''gb_hackers'', \<lparr>source = ''gb_hackers'', articles = [], status = ''error'',
                        error = Some ''unreachable''\<rparr>)]
     ''both''
     \<lparr>year = 2024, month = 1, day = 2, hour = 3, minute = 4, second = 5\<rparr>
     \<lparr>year = 2024, month = 1, day = 2, hour = 3, minute = 4, second = 6\<rparr> =
   \<lparr>csv_file = None, json_file = None, files = [], logged = [Warning ''No articles to save'']\<rparr>
   \<and> files (save_results
        [(''gb_hackers'', \<lparr>source = ''gb_hackers'', articles = [[(''title'', ''T'')]],
                          status = ''success'', error = None\<rparr>)]
        ''json''
        \<lparr>year = 2024, month = 1, day = 2, hour = 3, minute = 4, second = 5\<rparr>
        \<lparr>year = 2024, month = 1, day = 2, hour = 3, minute = 4, second = 6\<rparr>) \<noteq> []"
  using save_results_declines_empty [of
      "[(''krebs_security'', \<lparr>source = ''krebs_security'', articles = [], status = ''error'',
                            error = Some ''Failed to fetch''\<rparr>),
      (''gb_hackers'', \<lparr>source = ''gb_hackers'', articles = [], status = ''error'',
                        error = Some ''unreachable''\<rparr>)]"
      "''both''"
      "\<lparr>year = 2024, month = 1, day = 2, hour = 3, minute = 4, second = 5\<rparr>"
      "\<lparr>year = 2024, month = 1, day = 2, hour = 3, minute = 4, second = 6\<rparr>"]
    save_results_declines_empty [of
      "[(''gb_hackers'', \<lparr>source = ''gb_hackers'', articles = [[(''title'', ''T'')]],
                          status = ''success'', error = None\<rparr>)]"
      "''json''"
      "\<lparr>year = 2024, month = 1, day = 2, hour = 3, minute = 4, second = 5\<rparr>"
      "\<lparr>year = 2024, month = 1, day = 2, hour = 3, minute = 4, second = 6\<rparr>"]
  by (simp add: dict_values_def)

section \<open>The batch\<close>

subsection \<open>gather\<close>

lemma fill_length:
  "length (fold (\<lambda>i slots. if i < length slots then slots[i := Some (tasks ! i)] else slots)
             completion slots) = length slots"
  by (induction completion arbitrary: slots) simp_all

lemma fill_nth:
  "j < length slots \<Longrightarrow>
     fold (\<lambda>i slots. if i < length slots then slots[i := Some (tasks ! i)] else slots)
       completion slots ! j =
     (if j \<in> set completion then Some (tasks ! j) else slots ! j)"
proof (induction completion arbitrary: slots)
  case Nil
  then show ?case by simp
next
  case (Cons i completion)
  let ?slots = "if i < length slots then slots[i := Some (tasks ! i)] else slots"
  have len: "j < length ?slots" using Cons.prems by simp
  have here: "?slots ! j = (if j = i then Some (tasks ! j) else slots ! j)"
    using Cons.prems by (simp add: nth_list_update)
  show ?case using Cons.IH [OF len] here Cons.prems by auto
qed

lemma those_map_Some: "those (map Some xs) = Some xs"
  by (induction xs) simp_all

lemma gather_resolves:
  "set completion = {0..<length tasks} \<Longrightarrow> gather completion tasks = Some tasks"
proof -
  assume c: "set completion = {0..<length tasks}"
  let ?filled = "fold (\<lambda>i slots. if i < length slots then slots[i := Some (tasks ! i)] else slots)
       completion (replicate (length tasks) None)"
  have "?filled = map Some tasks"
  proof (rule nth_equalityI)
    show "length ?filled = length (map Some tasks)" by (simp add: fill_length)
  next
    fix j assume "j < length ?filled"
    then have j: "j < length tasks" by (simp add: fill_length)
    then have "?filled ! j = (if j \<in> set completion then Some (tasks ! j) else replicate (length tasks) None ! j)"
      by (intro fill_nth) simp
    with c j show "?filled ! j = map Some tasks ! j" by simp
  qed
  then show ?thesis by (simp add: gather_def those_map_Some)
qed

subsection \<open>The loop over the outcomes\<close>

lemma results_loop_fold:
  "results_loop callback outcomes (results, s) =
     (fold (\<lambda>r d. dict_set d (source_key r) r) (returned outcomes) results,
      fold (\<lambda>r s. case callback of None \<Rightarrow> s | Some f \<Rightarrow> f (source_key r) r s)
        (returned outcomes) s)"
proof (induction outcomes arbitrary: results s)
  case Nil
  then show ?case by simp
next
  case (Cons outcome outcomes)
  show ?case
  proof (cases outcome)
    case (Inl e)
    with Cons.IH show ?thesis by simp
  next
    case (Inr result)
    with Cons.IH show ?thesis
      by (cases callback) (simp_all add: Let_def source_key_def)
  qed
qed

lemma dict_set_new: "k \<notin> set (dict_keys d) \<Longrightarrow> dict_set d k v = d @ [(k, v)]"
  by (induction d k v rule: dict_set.induct) (auto simp: dict_keys_def)

lemma fold_dict_set_new:
  "distinct (map key rs) \<Longrightarrow> set (map key rs) \<inter> set (dict_keys d) = {} \<Longrightarrow>
     fold (\<lambda>r d. dict_set d (key r) r) rs d = d @ map (\<lambda>r. (key r, r)) rs"
proof (induction rs arbitrary: d)
  case Nil
  then show ?case by simp
next
  case (Cons r rs)
  from Cons.prems have new: "key r \<notin> set (dict_keys d)" by auto
  have step: "dict_set d (key r) r = d @ [(key r, r)]" by (rule dict_set_new [OF new])
  from Cons.prems have "distinct (map key rs)"
    and "set (map key rs) \<inter> set (dict_keys (d @ [(key r, r)])) = {}"
    by (auto simp: dict_keys_def)
  from Cons.IH [OF this] show ?case by (simp add: step)
qed


subsection \<open>The six tasks\<close>

lemma source_key_ids:
  "replace CHR '' '' CHR ''_'' (lower ''dark_reading'') = ''dark_reading''"
  "replace CHR '' '' CHR ''_'' (lower ''bleeping_computer'') = ''bleeping_computer''"
  "replace CHR '' '' CHR ''_'' (lower ''krebs_security'') = ''krebs_security''"
  "replace CHR '' '' CHR ''_'' (lower ''gb_hackers'') = ''gb_hackers''"
  "replace CHR '' '' CHR ''_'' (lower ''the_hacker_news'') = ''the_hacker_news''"
  "replace CHR '' '' CHR ''_'' (lower ''security_week'') = ''security_week''"
  by code_simp+

lemma task_sources:
  "list_all2 (\<lambda>t k. \<forall>r. t = Inr r \<longrightarrow> source_key r = k)
     (all_tasks w limit) source_ids"
proof -
  have feed: "source_key r = src"
    if "fst (scrape_feed src label url parse clock limit) = Inr r"
      and "replace CHR '' '' CHR ''_'' (lower src) = src"
    for src label url parse clock r
    using scrape_feed_shape [OF that(1)] that(2) by (simp add: source_key_def)
  have krebs: "source_key r = ''krebs_security''"
    if "fst (scrape_krebs_security cfg net find_all clock limit) = Inr r"
    for cfg net find_all clock r
    using scrape_krebs_security_shape [OF that] by (simp add: source_key_def source_key_ids)
  have rss: "source_key r = src"
    if "rss_task w src limit = Inr r" and "replace CHR '' '' CHR ''_'' (lower src) = src"
    for src r
  proof -
    from that(1) have "fst (fetch_rss_feed rss_feeds (feedparser_parse w) (datetime_now w src) src limit) = Inr r"
      by (simp add: rss_task_def split: option.splits)
    from fetch_rss_feed_shape [OF this] that(2) show ?thesis by (simp add: source_key_def)
  qed
  show ?thesis
    unfolding all_tasks_def async_tasks_def rss_tasks_def source_ids_def
      scrape_dark_reading_def scrape_bleeping_computer_def
    using feed krebs rss source_key_ids by simp
qed

lemma returned_keys:
  "list_all2 (\<lambda>t k. \<forall>r. t = Inr r \<longrightarrow> key r = k) tasks ids \<Longrightarrow> distinct ids \<Longrightarrow>
     distinct (map key (returned tasks)) \<and> set (map key (returned tasks)) \<subseteq> set ids"
proof (induction rule: list_all2_induct)
  case Nil
  then show ?case by simp
next
  case (Cons t k tasks ids)
  then show ?case by (cases t) auto
qed

lemma returned_all_keys:
  "list_all2 (\<lambda>t k. \<forall>r. t = Inr r \<longrightarrow> key r = k) tasks ids \<Longrightarrow>
   \<forall>t \<in> set tasks. \<exists>r. t = Inr r \<Longrightarrow> map key (returned tasks) = ids"
proof (induction rule: list_all2_induct)
  case Nil
  then show ?case by simp
next
  case (Cons t k tasks ids)
  then show ?case by (cases t) auto
qed

lemma returned_member: "Inr r \<in> set tasks \<longleftrightarrow> r \<in> set (returned tasks)"
  by (induction tasks rule: returned.induct) auto

lemma map_of_keyed:
  "distinct (map key rs) \<Longrightarrow> r \<in> set rs \<Longrightarrow> map_of (map (\<lambda>r. (key r, r)) rs) (key r) = Some r"
  by (induction rs) (auto simp: rev_image_eqI)

subsection \<open>Ordinary worlds\<close>

lemma feed_loop_returns:
  "list_all entry_caught es \<Longrightarrow> \<exists>as. feed_loop build clock i es = Inr as"
proof (induction es arbitrary: i)
  case Nil
  then show ?case by simp
next
  case (Cons e es)
  then obtain as where as: "feed_loop build clock (Suc i) es = Inr as" by force
  show ?case
  proof (cases e)
    case (Entry x)
    with as show ?thesis by simp
  next
    case (Defect x)
    with Cons.prems as show ?thesis by (cases x) simp_all
  qed
qed

lemma list_all_slice_to: "list_all P xs \<Longrightarrow> list_all P (slice_to n xs)"
  using set_slice_to [of n xs] by (auto simp: list_all_iff)

lemma except_Exception_returns: "caught (Inl e :: py_exn + 'a) \<Longrightarrow> \<exists>r. except_Exception src e = Inr r"
  by (cases e) (simp_all add: except_Exception_def)

lemma scrape_feed_returns:
  "feed_caught (parse url) \<Longrightarrow> \<exists>r. fst (scrape_feed src label url parse clock limit) = Inr r"
proof (cases "parse url")
  case (Inl e)
  assume "feed_caught (parse url)"
  with Inl have "caught (Inl e :: py_exn + feed_entry list)" by (simp add: feed_caught_def)
  from except_Exception_returns [OF this] Inl show ?thesis by (simp add: scrape_feed_def)
next
  case (Inr es)
  assume "feed_caught (parse url)"
  with Inr have "list_all entry_caught (slice_to limit es)"
    by (simp add: feed_caught_def list_all_slice_to)
  from feed_loop_returns [OF this, of "feed_article label" clock 0]
  obtain as where "feed_loop (feed_article label) clock 0 (slice_to limit es) = Inr as" by blast
  with Inr show ?thesis by (simp add: scrape_feed_def)
qed

lemma fetch_rss_feed_returns:
  "\<forall>url. feed_caught (parse url) \<Longrightarrow>
     \<exists>r. fst (fetch_rss_feed feeds parse clock src limit) = Inr r"
proof -
  assume all: "\<forall>url. feed_caught (parse url)"
  show ?thesis
  proof (cases "feeds src")
    case None
    then show ?thesis by (simp add: fetch_rss_feed_def)
  next
    case (Some url)
    show ?thesis
    proof (cases "parse url")
      case (Inl e)
      with all [rule_format, of url] have "caught (Inl e :: py_exn + feed_entry list)"
        by (simp add: feed_caught_def)
      from except_Exception_returns [OF this] Some Inl show ?thesis
        by (simp add: fetch_rss_feed_def)
    next
      case (Inr es)
      with all [rule_format, of url] have "list_all entry_caught (slice_to limit es)"
        by (simp add: feed_caught_def list_all_slice_to)
      from feed_loop_returns [OF this, of "rss_article src" clock 0]
      obtain as where "feed_loop (rss_article src) clock 0 (slice_to limit es) = Inr as" by blast
      with Some Inr show ?thesis by (simp add: fetch_rss_feed_def)
    qed
  qed
qed

lemma retry_from_returns:
  "\<forall>a. response_caught (net a) \<Longrightarrow> \<exists>b. fst (retry_from cfg url net a k) = Inr b"
proof (induction k arbitrary: a)
  case 0
  then show ?case by simp
next
  case (Suc k)
  then obtain b where rest: "fst (retry_from cfg url net (Suc a) k) = Inr b" by blast
  from Suc.prems have here: "response_caught (net a)" by blast
  show ?case
  proof (cases "net a")
    case (Inl e)
    with here rest show ?thesis by (cases e) (simp_all add: response_caught_def Let_def)
  next
    case (Inr resp)
    obtain st body where resp: "resp = Response st body" by (cases resp)
    show ?thesis
    proof (cases body)
      case (Inl e)
      with here rest Inr resp show ?thesis
        by (cases e) (simp_all add: response_caught_def Let_def)
    next
      case (Inr page)
      with rest \<open>net a = Inr resp\<close> resp show ?thesis by (simp add: Let_def)
    qed
  qed
qed

lemma scrape_krebs_security_returns:
  "\<forall>a. response_caught (net a) \<Longrightarrow> \<forall>html. caught (find_all html) \<Longrightarrow>
     \<exists>r. fst (scrape_krebs_security cfg net find_all clock limit) = Inr r"
proof -
  assume net: "\<forall>a. response_caught (net a)" and soup: "\<forall>html. caught (find_all html)"
  obtain b io where got: "scrape_with_retry cfg ''https://krebsonsecurity.com'' net = (Inr b, io)"
    using retry_from_returns [OF net, of cfg "''https://krebsonsecurity.com''" 0 "nat (max_retries cfg)"]
    by (cases "scrape_with_retry cfg ''https://krebsonsecurity.com'' net")
       (auto simp: scrape_with_retry_def)
  show ?thesis
  proof (cases b)
    case None
    with got show ?thesis by (simp add: scrape_krebs_security_def)
  next
    case (Some html)
    show ?thesis
    proof (cases "find_all html")
      case (Inl e)
      with soup [rule_format, of html] have "caught (Inl e :: py_exn + element list)" by simp
      from except_Exception_returns [OF this] got Some Inl show ?thesis
        by (auto simp: scrape_krebs_security_def)
    next
      case (Inr es)
      with got Some show ?thesis by (simp add: scrape_krebs_security_def)
    qed
  qed
qed

lemma ordinary_tasks_return:
  "ordinary w \<Longrightarrow> \<forall>t \<in> set (all_tasks w limit). \<exists>r. t = Inr r"
proof -
  assume o: "ordinary w"
  then have feeds: "\<forall>url. feed_caught (feedparser_parse w url)"
    and net: "\<forall>a. response_caught (session_get w a)"
    and soup: "\<forall>html. caught (find_all_article w html)"
    and thread: "\<And>src. to_thread w src = None"
    by (simp_all add: ordinary_def)
  have rss: "\<exists>r. rss_task w src limit = Inr r" for src
    using fetch_rss_feed_returns [OF feeds] by (simp add: rss_task_def thread)
  show ?thesis
    unfolding all_tasks_def async_tasks_def rss_tasks_def scrape_dark_reading_def
      scrape_bleeping_computer_def
    using rss scrape_feed_returns feeds scrape_krebs_security_returns [OF net soup]
    by simp
qed

lemma length_all_tasks: "length (all_tasks w limit) = 6"
  by (simp add: all_tasks_def async_tasks_def rss_tasks_def)

lemma distinct_source_ids: "distinct source_ids"
  by (simp add: source_ids_def)

lemma returned_source_keys:
  "distinct (map source_key (returned (all_tasks w limit))) \<and>
   set (map source_key (returned (all_tasks w limit))) \<subseteq> set source_ids"
  using returned_keys [OF task_sources distinct_source_ids] .

lemma scrape_all_async_eq:
  "set completion = {0..<6} \<Longrightarrow>
     scrape_all_async w completion limit callback s =
       Some (map (\<lambda>r. (source_key r, r)) (returned (all_tasks w limit)),
             fold (\<lambda>r s. case callback of None \<Rightarrow> s | Some f \<Rightarrow> f (source_key r) r s)
               (returned (all_tasks w limit)) s)"
proof -
  assume "set completion = {0..<6}"
  then have "gather completion (all_tasks w limit) = Some (all_tasks w limit)"
    by (intro gather_resolves) (simp add: length_all_tasks)
  moreover have "fold (\<lambda>r d. dict_set d (source_key r) r) (returned (all_tasks w limit)) [] =
      [] @ map (\<lambda>r. (source_key r, r)) (returned (all_tasks w limit))"
    using returned_source_keys [of w limit]
    by (intro fold_dict_set_new) (simp_all add: dict_keys_def)
  ultimately show ?thesis
    by (simp add: scrape_all_async_def results_loop_fold)
qed

lemma krebs_task_fails:
  "\<forall>j<3. failed_attempt (session_get w j) \<Longrightarrow>
     Inr \<lparr>source = ''krebs_security'', articles = [], status = ''error'',
          error = Some ''Failed to fetch''\<rparr> \<in> set (all_tasks w limit)"
proof -
  assume "\<forall>j<3. failed_attempt (session_get w j)"
  then have "\<forall>j<nat (max_retries default_retry_config). failed_attempt (session_get w (0 + j))"
    by (simp add: default_retry_config_def)
  from retry_from_all_failed [OF this]
  have "fst (scrape_with_retry default_retry_config ''https://krebsonsecurity.com'' (session_get w))
      = Inr None"
    by (simp add: scrape_with_retry_def)
  then have "fst (scrape_krebs_security default_retry_config (session_get w) (find_all_article w)
             (datetime_now w ''krebs_security'') limit) =
       Inr \<lparr>source = ''krebs_security'', articles = [], status = ''error'',
            error = Some ''Failed to fetch''\<rparr>"
    by (intro krebs_failed_to_fetch) simp
  then show ?thesis by (simp add: all_tasks_def async_tasks_def)
qed

lemma rss_task_fails:
  "to_thread w src = None \<Longrightarrow> rss_feeds src = Some url \<Longrightarrow> url \<noteq> [] \<Longrightarrow>
   feedparser_parse w url = Inl (Exception m) \<Longrightarrow>
     rss_task w src limit =
       Inr \<lparr>source = src, articles = [], status = ''error'', error = Some m\<rparr>"
  by (simp add: rss_task_def fetch_rss_feed_def except_Exception_def)

text \<open>
  C1, amended. When the six tasks have finished, in whatever order,
  \<^verbatim>\<open>scrape_all_async\<close> returns the dictionary that has, for each task that returned a
  result and in the order of the tasks, that result under its key, the source identifier in
  lower case with spaces replaced by underscores. The keys are distinct and among the six
  identifiers, so every result a task returned is found under its key as the fetcher
  returned it, with all its articles, whatever the other tasks did; a task whose outcome is
  an exception has no entry. In an ordinary world every task returns and the keys are the
  six identifiers. A page fetch whose three attempts fail is the task's result with status
  \<^verbatim>\<open>error\<close>, and so is a feed fetch whose parser raises an \<^verbatim>\<open>Exception\<close>.
\<close>

theorem scrape_all_async_results:
  "distinct completion \<Longrightarrow> set completion = {0..<6} \<Longrightarrow>
     (\<exists>results s'.
        scrape_all_async w completion limit callback s = Some (results, s') \<and>
        results = map (\<lambda>r. (source_key r, r)) (returned (all_tasks w limit)) \<and>
        distinct (dict_keys results) \<and>
        set (dict_keys results) \<subseteq> set source_ids \<and>
        (\<forall>r. Inr r \<in> set (all_tasks w limit) \<longrightarrow> map_of results (source_key r) = Some r) \<and>
        (ordinary w \<longrightarrow> dict_keys results = source_ids))
   \<and> ((\<forall>j<3. failed_attempt (session_get w j)) \<longrightarrow>
        Inr \<lparr>source = ''krebs_security'', articles = [], status = ''error'',
             error = Some ''Failed to fetch''\<rparr> \<in> set (all_tasks w limit))
   \<and> (to_thread w src = None \<and> rss_feeds src = Some url \<and> url \<noteq> [] \<and>
        feedparser_parse w url = Inl (Exception m) \<longrightarrow>
        rss_task w src limit =
          Inr \<lparr>source = src, articles = [], status = ''error'', error = Some m\<rparr>)"
proof (intro conjI impI)
  assume c: "set completion = {0..<6}"
  let ?rs = "returned (all_tasks w limit)"
  let ?results = "map (\<lambda>r. (source_key r, r)) ?rs"
  have keys: "dict_keys ?results = map source_key ?rs"
    by (simp add: dict_keys_def comp_def)
  have d: "distinct (map source_key ?rs)" and sub: "set (map source_key ?rs) \<subseteq> set source_ids"
    using returned_source_keys [of w limit] by blast+
  have look: "\<forall>r. Inr r \<in> set (all_tasks w limit) \<longrightarrow> map_of ?results (source_key r) = Some r"
    using map_of_keyed [OF d] by (simp add: returned_member)
  have all: "ordinary w \<longrightarrow> dict_keys ?results = source_ids"
    using returned_all_keys [OF task_sources ordinary_tasks_return] keys by simp
  from scrape_all_async_eq [OF c, of w limit callback s] keys d sub look all
  show "\<exists>results s'.
        scrape_all_async w completion limit callback s = Some (results, s') \<and>
        results = map (\<lambda>r. (source_key r, r)) (returned (all_tasks w limit)) \<and>
        distinct (dict_keys results) \<and>
        set (dict_keys results) \<subseteq> set source_ids \<and>
        (\<forall>r. Inr r \<in> set (all_tasks w limit) \<longrightarrow> map_of results (source_key r) = Some r) \<and>
        (ordinary w \<longrightarrow> dict_keys results = source_ids)"
    by (intro exI conjI) (assumption | simp)+
next
  assume "\<forall>j<3. failed_attempt (session_get w j)"
  then show "Inr \<lparr>source = ''krebs_security'', articles = [], status = ''error'',
             error = Some ''Failed to fetch''\<rparr> \<in> set (all_tasks w limit)"
    by (rule krebs_task_fails)
next
  assume "to_thread w src = None \<and> rss_feeds src = Some url \<and> url \<noteq> [] \<and>
        feedparser_parse w url = Inl (Exception m)"
  then show "rss_task w src limit =
          Inr \<lparr>source = src, articles = [], status = ''error'', error = Some m\<rparr>"
    using rss_task_fails by blast
qed

lemma labels:
  "title_case (replace CHR ''_'' CHR '' '' ''gb_hackers'') = ''Gb Hackers''"
  "title_case (replace CHR ''_'' CHR '' '' ''the_hacker_news'') = ''The Hacker News''"
  "title_case (replace CHR ''_'' CHR '' '' ''security_week'') = ''Security Week''"
  by code_simp+

lemma stamp:
  "strftime_minute \<lparr>year = 2024, month = 10, day = 20, hour = 3, minute = 4, second = 5\<rparr> =
     ''2024-10-20 03:04''"
  by (simp add: strftime_minute_def pad2_def pad4_def digit_def)



lemma no_thread_left_krebs:
  "fst (scrape_krebs_security default_retry_config (session_get no_thread_left)
          (find_all_article no_thread_left) (datetime_now no_thread_left ''krebs_security'') limit) =
     Inr \<lparr>source = ''krebs_security'', articles = [], status = ''error'',
          error = Some ''Failed to fetch''\<rparr>"
  using all_attempts_fail [of "''https://krebsonsecurity.com''" "''timeout''"]
  by (simp add: scrape_krebs_security_def no_thread_left_def site_down_def)

lemma no_thread_left_tasks:
  "all_tasks no_thread_left 20 =
     [Inr \<lparr>source = ''dark_reading'',
           articles = [[(''title'', ''News''), (''url'', ''https://www.darkreading.com/rss.xml''),
                        (''summary'', []), (''published'', ''2024-10-20 03:04''),
                        (''source'', ''Dark Reading'')]],
           status = ''success'', error = None\<rparr>,
      Inr \<lparr>source = ''bleeping_computer'',
           articles = [[(''title'', ''News''), (''url'', ''https://www.bleepingcomputer.com/feed/''),
                        (''summary'', []), (''published'', ''2024-10-20 03:04''),
                        (''source'', ''Bleeping Computer'')]],
           status = ''success'', error = None\<rparr>,
      Inr \<lparr>source = ''krebs_security'', articles = [], status = ''error'',
           error = Some ''Failed to fetch''\<rparr>,
      Inl (Exception ''cannot start new thread''),
      Inr \<lparr>source = ''the_hacker_news'',
           articles = [[(''title'', ''News''), (''url'', ''https://feeds.feedburner.com/TheHackersNews''),
                        (''summary'', []), (''published'', ''2024-10-20 03:04''),
                        (''source'', ''The Hacker News'')]],
           status = ''success'', error = None\<rparr>,
      Inr \<lparr>source = ''security_week'',
           articles = [[(''title'', ''News''), (''url'', ''https://www.securityweek.com/feed/''),
                        (''summary'', []), (''published'', ''2024-10-20 03:04''),
                        (''source'', ''Security Week'')]],
           status = ''success'', error = None\<rparr>]"
  unfolding all_tasks_def async_tasks_def rss_tasks_def
  by (simp add: no_thread_left_krebs)
     (simp add: no_thread_left_def site_down_def rss_task_def scrape_dark_reading_def scrape_bleeping_computer_def
        scrape_feed_def fetch_rss_feed_def rss_feeds_def slice_to_def feed_article_def
        rss_article_def labels stamp)

lemma order_a: "distinct [3, 0, 5, 1, 4, 2 :: nat] \<and> set [3, 0, 5, 1, 4, 2 :: nat] = {0..<6}"
  by code_simp


lemma order_c: "distinct [0, 1, 2, 3, 4, 5 :: nat] \<and> set [0, 1, 2, 3, 4, 5 :: nat] = {0..<6}"
  by code_simp

lemma ordinary_site_down: "ordinary site_down"
  by (simp add: ordinary_def site_down_def feed_caught_def response_caught_def)

lemma site_down_attempts: "\<forall>j<3. failed_attempt (session_get site_down j)"
  by (simp add: site_down_def)

text \<open>
  The site of the scraped page is down and the tasks finish in the order 3, 0, 5, 1, 4, 2: six
  entries, the one of \<^verbatim>\<open>krebs_security\<close> with status \<^verbatim>\<open>error\<close>.
\<close>

theorem scrape_all_async_results_witness:
  "distinct [3, 0, 5, 1, 4, 2 :: nat] \<and> set [3, 0, 5, 1, 4, 2 :: nat] = {0..<6}
   \<and> ordinary site_down
   \<and> (\<exists>results s'.
        scrape_all_async site_down [3, 0, 5, 1, 4, 2] 20 None () = Some (results, s') \<and>
        dict_keys results = source_ids \<and>
        map_of results ''krebs_security'' =
          Some \<lparr>source = ''krebs_security'', articles = [], status = ''error'',
                error = Some ''Failed to fetch''\<rparr>)"
proof -
  let ?failed = "\<lparr>source = ''krebs_security'', articles = [], status = ''error'',
                error = Some ''Failed to fetch''\<rparr>"
  from order_a have d: "distinct [3, 0, 5, 1, 4, 2 :: nat]"
    and c: "set [3, 0, 5, 1, 4, 2 :: nat] = {0..<6}" by (rule conjunct1, rule conjunct2)
  note t = scrape_all_async_results [OF d c, of site_down 20 None "()"]
  have k: "Inr ?failed \<in> set (all_tasks site_down 20)"
    by (rule t [THEN conjunct2, THEN conjunct1, THEN mp]) (rule site_down_attempts)
  from t [THEN conjunct1] obtain results s' where
    all: "scrape_all_async site_down [3, 0, 5, 1, 4, 2] 20 None () = Some (results, s') \<and>
        results = map (\<lambda>r. (source_key r, r)) (returned (all_tasks site_down 20)) \<and>
        distinct (dict_keys results) \<and>
        set (dict_keys results) \<subseteq> set source_ids \<and>
        (\<forall>r. Inr r \<in> set (all_tasks site_down 20) \<longrightarrow> map_of results (source_key r) = Some r) \<and>
        (ordinary site_down \<longrightarrow> dict_keys results = source_ids)"
    by (elim exE)
  from all have r: "scrape_all_async site_down [3, 0, 5, 1, 4, 2] 20 None () = Some (results, s')"
    by (rule conjunct1)
  have "map_of results (source_key ?failed) = Some ?failed"
    by (rule all [THEN conjunct2, THEN conjunct2, THEN conjunct2, THEN conjunct2,
          THEN conjunct1, THEN spec, THEN mp]) (rule k)
  then have m: "map_of results ''krebs_security'' = Some ?failed"
    by (simp add: source_key_def source_key_ids)
  have keys: "dict_keys results = source_ids"
    by (rule all [THEN conjunct2, THEN conjunct2, THEN conjunct2, THEN conjunct2,
          THEN conjunct2, THEN mp]) (rule ordinary_site_down)
  from r keys m have "\<exists>results s'.
        scrape_all_async site_down [3, 0, 5, 1, 4, 2] 20 None () = Some (results, s') \<and>
        dict_keys results = source_ids \<and>
        map_of results ''krebs_security'' = Some ?failed"
    by (intro exI conjI)
  with d c ordinary_site_down show ?thesis by (intro conjI)
qed

text \<open>
  C1 as the specification words it fails: with no thread left for \<^verbatim>\<open>gb_hackers\<close> the
  outcome of its task is the exception, which the loop passes over, and the dictionary has
  five entries and none for \<^verbatim>\<open>gb_hackers\<close>.
\<close>

theorem gb_hackers_dropped:
  "map_option (dict_keys \<circ> fst)
     (scrape_all_async no_thread_left [0, 1, 2, 3, 4, 5] 20 None ()) =
     Some [''dark_reading'', ''bleeping_computer'', ''krebs_security'',
           ''the_hacker_news'', ''security_week'']
   \<and> all_tasks no_thread_left 20 ! 3 = Inl (Exception ''cannot start new thread'')
   \<and> source_ids ! 3 = ''gb_hackers''"
proof -
  from order_c have c: "set [0, 1, 2, 3, 4, 5 :: nat] = {0..<6}" by (rule conjunct2)
  show ?thesis
    unfolding scrape_all_async_eq [OF c] no_thread_left_tasks
    by (simp add: dict_keys_def source_key_def source_key_ids source_ids_def)
qed




end
